theory Spec2Isabelle
  imports Main
begin

section \<open>The resolver of querylanguage: syntax trees to Django query objects\<close>

text \<open>
  The module \<^verbatim>\<open>querylanguage/resolver.py\<close> walks an expression tree produced by the
  external SQL parser and builds Django objects (\<^verbatim>\<open>Value\<close>, \<^verbatim>\<open>F\<close>, \<^verbatim>\<open>Q\<close>, lookups).
  The traversal mutates \<^verbatim>\<open>self.extra_params\<close>; here that dictionary is a state that
  every function takes and returns, and an exception is a value \<open>Inl e\<close> that comes
  back together with the state reached when it was raised.
\<close>

subsection \<open>Exceptions\<close>

text \<open>
  The first four constructors are the classes of \<^verbatim>\<open>querylanguage/exceptions.py\<close>. The
  others are what the interpreter or Django raise on their own:
  \<open>DjangoFieldDoesNotExist\<close> is \<^verbatim>\<open>django.core.exceptions.FieldDoesNotExist\<close>, raised by
  \<^verbatim>\<open>_meta.get_field\<close>; it is a class of its own, unrelated to the package's.
\<close>

datatype error =
    FieldDoesNotExist string
  | InvalidQuery
  | InvalidLiteral
  | InvalidConeNumberArguments
  | DjangoFieldDoesNotExist string
  | AttributeError
  | TypeError
  | ValueError
  | IndexError

fun typed_error :: "error \<Rightarrow> bool" where
  "typed_error (FieldDoesNotExist f) = True"
| "typed_error InvalidQuery = True"
| "typed_error InvalidLiteral = True"
| "typed_error InvalidConeNumberArguments = True"
| "typed_error e = False"

subsection \<open>The expression tree read by the resolver\<close>

text \<open>
  A literal node is read through \<^verbatim>\<open>p.this\<close>, \<^verbatim>\<open>p.is_string\<close>, \<^verbatim>\<open>p.is_int\<close> and
  \<^verbatim>\<open>p.is_number\<close>; an identifier through \<^verbatim>\<open>.this\<close> and \<^verbatim>\<open>.quoted\<close>. A column
  node holds its qualifying identifiers and its own identifier \<^verbatim>\<open>p.this\<close>;
  \<^verbatim>\<open>p.parts\<close> is the list of all of them, built anew at every access. The parser
  also gives column nodes whose \<^verbatim>\<open>p.this\<close> is a star, as for \<^verbatim>\<open>related.*\<close>
  (\<open>Column_star\<close>), and function nodes whose name is an identifier object instead
  of a string, as for \<^verbatim>\<open>"cone"(1, 2, 3)\<close> (\<open>Anonymous_quoted\<close>): a star has no
  \<^verbatim>\<open>quoted\<close> and an identifier has no \<^verbatim>\<open>lower\<close>.
\<close>

record literal =
  lit_this :: string
  is_string :: bool
  is_int :: bool
  is_number :: bool

record ident =
  this :: string
  quoted :: bool

datatype node =
    Literal literal
  | Column "ident list" ident
  | Column_star "ident list"
  | Neg node
  | Not_node node
  | Paren node
  | And node node
  | Or node node
  | EQ node node
  | Is node node
  | NEQ node node
  | GT node node
  | LT node node
  | GTE node node
  | LTE node node
  | RegexpLike node node
  | Add node node
  | Sub node node
  | Mul node node
  | Div node node
  | Between node node node
  | In node "node list"
  | Anonymous string "node list"
  | Anonymous_quoted ident "node list"
  | Null
  | Other

definition parts :: "ident list \<Rightarrow> ident \<Rightarrow> ident list" where
  "parts qualifiers ident = qualifiers @ [ident]"

subsection \<open>The Django objects that are built\<close>

text \<open>
  A Python scalar held by a \<^verbatim>\<open>Value\<close> or passed as a keyword argument. The float
  type \<open>'f\<close> is a parameter: nothing here depends on how floats are represented.
\<close>

datatype 'f pyval = PyStr string | PyInt int | PyFloat 'f | PyBool bool

datatype connector = ADD | SUB | MUL | DIV

text \<open>
  The objects are terms over the constructors the code calls. \<open>Q_kwargs k v\<close> is
  \<^verbatim>\<open>Q(**{k: v})\<close>, the filter "field \<open>k\<close> equals \<open>v\<close>"; \<open>Q_and\<close>, \<open>Q_or\<close> and \<open>Q_not\<close>
  are \<^verbatim>\<open>&\<close>, \<^verbatim>\<open>|\<close> and \<^verbatim>\<open>~\<close> on \<^verbatim>\<open>Q\<close> objects; \<open>NegatedExpression\<close> is \<^verbatim>\<open>~\<close> on a
  lookup; \<open>CombinedExpression\<close> is what arithmetic on expressions returns.
\<close>

datatype 'f dj =
    Value "'f pyval"
  | F string
  | CombinedExpression "'f dj" connector "'f dj"
  | Exact "'f dj" "'f dj"
  | IContains "'f dj" "'f dj"
  | GreaterThan "'f dj" "'f dj"
  | LessThan "'f dj" "'f dj"
  | GreaterThanOrEqual "'f dj" "'f dj"
  | LessThanOrEqual "'f dj" "'f dj"
  | In_lookup "'f dj" "'f dj list"
  | IsNull "'f dj" bool
  | NegatedExpression "'f dj"
  | Q "'f dj"
  | Q_kwargs string "'f pyval"
  | Q_not "'f dj"
  | Q_and "'f dj" "'f dj"
  | Q_or "'f dj" "'f dj"

text \<open>Whether an object is an instance of \<^verbatim>\<open>Q\<close> (anything else is a Django expression).\<close>

fun is_Q :: "'f dj \<Rightarrow> bool" where
  "is_Q (Q x) = True"
| "is_Q (Q_kwargs k v) = True"
| "is_Q (Q_not x) = True"
| "is_Q (Q_and x y) = True"
| "is_Q (Q_or x y) = True"
| "is_Q x = False"

text \<open>The attribute \<^verbatim>\<open>.value\<close>: only \<^verbatim>\<open>Value\<close> objects have it.\<close>

fun py_value :: "'f dj \<Rightarrow> error + 'f pyval" where
  "py_value (Value v) = Inr v"
| "py_value x = Inl AttributeError"

text \<open>
  Unary minus on a Django object: expressions multiply by \<^verbatim>\<open>Value(-1)\<close>, a \<^verbatim>\<open>Q\<close> has
  no such operator. A binary arithmetic operator builds a combined expression as soon
  as one operand is an expression (through the reflected operator when it is the right
  one), and is a \<^verbatim>\<open>TypeError\<close> between two \<^verbatim>\<open>Q\<close> objects.
\<close>

definition dj_neg :: "'f dj \<Rightarrow> error + 'f dj" where
  "dj_neg x = (if is_Q x then Inl TypeError
               else Inr (CombinedExpression x MUL (Value (PyInt (- 1)))))"

definition dj_arith :: "connector \<Rightarrow> 'f dj \<Rightarrow> 'f dj \<Rightarrow> error + 'f dj" where
  "dj_arith c x y = (if is_Q x \<and> is_Q y then Inl TypeError
                     else Inr (CombinedExpression x c y))"

subsection \<open>What the resolver is given\<close>

text \<open>
  The schema is reached through \<^verbatim>\<open>model._meta.get_field(name)\<close>: \<open>None\<close> when Django
  raises its \<^verbatim>\<open>FieldDoesNotExist\<close>, otherwise a field whose \<^verbatim>\<open>related_model\<close> is a
  model or \<^verbatim>\<open>None\<close>. The built-ins \<^verbatim>\<open>int\<close> and \<^verbatim>\<open>float\<close> applied to a text give
  \<open>None\<close> when they raise \<^verbatim>\<open>ValueError\<close>; \<open>float_neg\<close> is minus on floats.
\<close>

datatype 'm field = Field (related_model: "'m option")

record ('m, 'f) env =
  model :: 'm
  get_field :: "'m \<Rightarrow> string \<Rightarrow> 'm field option"
  py_int :: "string \<Rightarrow> int option"
  py_float :: "string \<Rightarrow> 'f option"
  float_neg :: "'f \<Rightarrow> 'f"

text \<open>Unary minus on the scalar taken out of a \<^verbatim>\<open>Value\<close>.\<close>

fun py_neg :: "('m, 'f) env \<Rightarrow> 'f pyval \<Rightarrow> error + 'f pyval" where
  "py_neg env (PyInt n) = Inr (PyInt (- n))"
| "py_neg env (PyFloat x) = Inr (PyFloat (float_neg env x))"
| "py_neg env (PyBool b) = Inr (PyInt (- (if b then 1 else 0)))"
| "py_neg env (PyStr s) = Inl TypeError"

subsection \<open>The accumulator \<^verbatim>\<open>extra_params\<close>\<close>

record 'f cone_params =
  cone_ra :: "'f pyval"
  cone_dec :: "'f pyval"
  cone_radius :: "'f pyval"

record 'f extra_params =
  cones :: "'f cone_params list"
  aliases :: "string \<rightharpoonup> string"

text \<open>The value set by \<^verbatim>\<open>Parser.__init__\<close>.\<close>

definition init_extra_params :: "'f extra_params" where
  "init_extra_params = \<lparr>cones = [], aliases = Map.empty\<rparr>"

text \<open>
  A computation takes the accumulator and gives a result or an exception, and the
  accumulator as it is then.
\<close>

type_synonym ('a, 'f) action = "'f extra_params \<Rightarrow> (error + 'a) \<times> 'f extra_params"

definition returns :: "'a \<Rightarrow> ('a, 'f) action" where
  "returns x s = (Inr x, s)"

definition raises :: "error \<Rightarrow> ('a, 'f) action" where
  "raises e s = (Inl e, s)"

definition lift :: "error + 'a \<Rightarrow> ('a, 'f) action" where
  "lift r s = (r, s)"

definition and_then :: "('a, 'f) action \<Rightarrow> ('a \<Rightarrow> ('b, 'f) action) \<Rightarrow> ('b, 'f) action" where
  "and_then m k s = (case m s of (Inl e, s') \<Rightarrow> (Inl e, s') | (Inr x, s') \<Rightarrow> k x s')"

subsection \<open>\<^verbatim>\<open>Parser._resolve_column\<close>\<close>

text \<open>\<^verbatim>\<open>sep.join(xs)\<close> and \<^verbatim>\<open>str(n)\<close> for a length.\<close>

fun join :: "string \<Rightarrow> string list \<Rightarrow> string" where
  "join sep [] = []"
| "join sep [x] = x"
| "join sep (x # y # ys) = x @ sep @ join sep (y # ys)"

definition digit_char :: "nat \<Rightarrow> char" where
  "digit_char d = char_of (48 + d)"

fun str :: "nat \<Rightarrow> string" where
  "str n = (if n < 10 then [digit_char n] else str (n div 10) @ [digit_char (n mod 10)])"

declare str.simps [simp del]

text \<open>
  The \<^verbatim>\<open>while len(parts) > 1\<close> loop: the first identifier is popped, looked up on the
  current model outside any \<^verbatim>\<open>try\<close>, and the current model becomes its
  \<^verbatim>\<open>related_model\<close>, which is \<^verbatim>\<open>None\<close> for a field that is not a relation.
\<close>

fun related_loop ::
  "('m, 'f) env \<Rightarrow> 'm option \<Rightarrow> ident list \<Rightarrow> error + ('m option \<times> ident list)" where
  "related_loop env mdl (current # nxt # rest) =
     (case mdl of
        None \<Rightarrow> Inl AttributeError
      | Some m \<Rightarrow>
          (case get_field env m (this current) of
             None \<Rightarrow> Inl (DjangoFieldDoesNotExist (this current))
           | Some fld \<Rightarrow> related_loop env (related_model fld) (nxt # rest)))"
| "related_loop env mdl ps = Inr (mdl, ps)"

text \<open>
  After the loop the last identifier is looked up inside the \<^verbatim>\<open>try\<close>, which turns
  Django's exception into the package's; the name returned joins all of \<^verbatim>\<open>p.parts\<close>.
\<close>

definition resolve_column :: "('m, 'f) env \<Rightarrow> ident list \<Rightarrow> error + 'f dj" where
  "resolve_column env p_parts =
     (case related_loop env (Some (model env)) p_parts of
        Inl e \<Rightarrow> Inl e
      | Inr (mdl, ps) \<Rightarrow>
          (case mdl of
             None \<Rightarrow> Inl AttributeError
           | Some m \<Rightarrow>
               (case ps of
                  [] \<Rightarrow> Inl IndexError
                | p0 # rest \<Rightarrow>
                    (case get_field env m (this p0) of
                       None \<Rightarrow> Inl (FieldDoesNotExist (this p0))
                     | Some fld \<Rightarrow> Inr (F (join ''__'' (map this p_parts)))))))"

subsection \<open>\<^verbatim>\<open>Parser._resolve\<close> and \<^verbatim>\<open>Parser._resolve_cone\<close>\<close>

text \<open>\<^verbatim>\<open>str.lower\<close> on the function name, compared with \<^verbatim>\<open>'cone'\<close>.\<close>

definition lower_char :: "char \<Rightarrow> char" where
  "lower_char c = (let n = (of_char c :: nat) in if 65 \<le> n \<and> n \<le> 90 then char_of (n + 32) else c)"

definition lower :: "string \<Rightarrow> string" where
  "lower s = map lower_char s"

text \<open>The test \<^verbatim>\<open>isinstance(p.this, exp.Literal) & (not p.this.is_string)\<close>.\<close>

fun nonstring_literal :: "node \<Rightarrow> bool" where
  "nonstring_literal (Literal l) = (\<not> is_string l)"
| "nonstring_literal e = False"

fun is_Null :: "node \<Rightarrow> bool" where
  "is_Null Null = True"
| "is_Null e = False"

text \<open>
  Lines 171 to 184: the index is the length of the list before the record is appended,
  and the name is \<^verbatim>\<open>cone_query\<close> followed by nothing or by the index.
\<close>

definition cone_index_str :: "nat \<Rightarrow> string" where
  "cone_index_str cone_index = (if cone_index = 0 then [] else str cone_index)"

definition append_cone :: "'f cone_params \<Rightarrow> ('f dj, 'f) action" where
  "append_cone cone_params s =
     (Inr (Q_kwargs (''cone_query'' @ cone_index_str (length (cones s))) (PyBool True)),
      s\<lparr>cones := cones s @ [cone_params]\<rparr>)"

text \<open>
  The dispatch, in the order of the \<^verbatim>\<open>isinstance\<close> chain. Operands are resolved left
  to right; \<open>resolve_all\<close> is the list comprehension of the \<^verbatim>\<open>In\<close> branch.
\<close>

fun resolve :: "('m, 'f) env \<Rightarrow> node \<Rightarrow> ('f dj, 'f) action"
  and resolve_all :: "('m, 'f) env \<Rightarrow> node list \<Rightarrow> ('f dj list, 'f) action"
  and resolve_cone :: "('m, 'f) env \<Rightarrow> node list \<Rightarrow> ('f dj, 'f) action"
where
  "resolve env (Literal p) =
     (if is_string p then returns (Value (PyStr (lit_this p)))
      else if is_int p then
        (case py_int env (lit_this p) of
           None \<Rightarrow> raises ValueError
         | Some n \<Rightarrow> returns (Value (PyInt n)))
      else if is_number p then
        (case py_float env (lit_this p) of
           None \<Rightarrow> raises ValueError
         | Some x \<Rightarrow> returns (Value (PyFloat x)))
      else raises InvalidLiteral)"
| "resolve env (Column qualifiers ident) =
     (if quoted ident then returns (Value (PyStr (this ident)))
      else lift (resolve_column env (parts qualifiers ident)))"
| "resolve env (Column_star qualifiers) = raises AttributeError"
| "resolve env (Neg e) =
     (if nonstring_literal e then
        and_then (resolve env e) (\<lambda>r.
        and_then (lift (py_value r)) (\<lambda>v.
        and_then (lift (py_neg env v)) (\<lambda>w.
        returns (Value w))))
      else and_then (resolve env e) (\<lambda>r. lift (dj_neg r)))"
| "resolve env (Not_node e) =
     and_then (resolve env e) (\<lambda>r. returns (Q_not (Q r)))"
| "resolve env (Paren e) = resolve env e"
| "resolve env (And l r) =
     and_then (resolve env l) (\<lambda>a.
     and_then (resolve env r) (\<lambda>b.
     returns (Q_and (Q a) (Q b))))"
| "resolve env (Or l r) =
     and_then (resolve env l) (\<lambda>a.
     and_then (resolve env r) (\<lambda>b.
     returns (Q_or (Q a) (Q b))))"
| "resolve env (EQ l r) =
     (if is_Null r then and_then (resolve env l) (\<lambda>a. returns (IsNull a True))
      else and_then (resolve env l) (\<lambda>a.
           and_then (resolve env r) (\<lambda>b.
           returns (Exact a b))))"
| "resolve env (Is l r) =
     (if is_Null r then and_then (resolve env l) (\<lambda>a. returns (IsNull a True))
      else and_then (resolve env l) (\<lambda>a.
           and_then (resolve env r) (\<lambda>b.
           returns (Exact a b))))"
| "resolve env (NEQ l r) =
     (if is_Null r then and_then (resolve env l) (\<lambda>a. returns (IsNull a False))
      else and_then (resolve env l) (\<lambda>a.
           and_then (resolve env r) (\<lambda>b.
           returns (NegatedExpression (Exact a b)))))"
| "resolve env (GT l r) =
     and_then (resolve env l) (\<lambda>a.
     and_then (resolve env r) (\<lambda>b.
     returns (GreaterThan a b)))"
| "resolve env (LT l r) =
     and_then (resolve env l) (\<lambda>a.
     and_then (resolve env r) (\<lambda>b.
     returns (LessThan a b)))"
| "resolve env (GTE l r) =
     and_then (resolve env l) (\<lambda>a.
     and_then (resolve env r) (\<lambda>b.
     returns (GreaterThanOrEqual a b)))"
| "resolve env (LTE l r) =
     and_then (resolve env l) (\<lambda>a.
     and_then (resolve env r) (\<lambda>b.
     returns (LessThanOrEqual a b)))"
| "resolve env (RegexpLike l r) =
     and_then (resolve env l) (\<lambda>a.
     and_then (resolve env r) (\<lambda>b.
     returns (IContains a b)))"
| "resolve env (Add l r) =
     and_then (resolve env l) (\<lambda>a.
     and_then (resolve env r) (\<lambda>b.
     lift (dj_arith ADD a b)))"
| "resolve env (Sub l r) =
     and_then (resolve env l) (\<lambda>a.
     and_then (resolve env r) (\<lambda>b.
     lift (dj_arith SUB a b)))"
| "resolve env (Mul l r) =
     and_then (resolve env l) (\<lambda>a.
     and_then (resolve env r) (\<lambda>b.
     lift (dj_arith MUL a b)))"
| "resolve env (Div l r) =
     and_then (resolve env l) (\<lambda>a.
     and_then (resolve env r) (\<lambda>b.
     lift (dj_arith DIV a b)))"
| "resolve env (Between e low high) =
     and_then (resolve env e) (\<lambda>a.
     and_then (resolve env low) (\<lambda>b.
     and_then (resolve env e) (\<lambda>c.
     and_then (resolve env high) (\<lambda>d.
     returns (Q_and (Q (GreaterThanOrEqual a b)) (Q (LessThanOrEqual c d)))))))"
| "resolve env (In e expressions) =
     and_then (resolve env e) (\<lambda>a.
     and_then (resolve_all env expressions) (\<lambda>bs.
     returns (In_lookup a bs)))"
| "resolve env (Anonymous name expressions) =
     (if lower name = ''cone'' then resolve_cone env expressions
      else raises InvalidQuery)"
| "resolve env (Anonymous_quoted ident expressions) = raises AttributeError"
| "resolve env Null = raises InvalidQuery"
| "resolve env Other = raises InvalidQuery"
| "resolve_all env [] = returns []"
| "resolve_all env (e # es) =
     and_then (resolve env e) (\<lambda>a.
     and_then (resolve_all env es) (\<lambda>bs.
     returns (a # bs)))"
| "resolve_cone env [e0, e1, e2] =
     and_then (resolve env e0) (\<lambda>r0.
     and_then (lift (py_value r0)) (\<lambda>ra.
     and_then (resolve env e1) (\<lambda>r1.
     and_then (lift (py_value r1)) (\<lambda>dec.
     and_then (resolve env e2) (\<lambda>r2.
     and_then (lift (py_value r2)) (\<lambda>radius.
     append_cone \<lparr>cone_ra = ra, cone_dec = dec, cone_radius = radius\<rparr>))))))"
| "resolve_cone env expressions = raises InvalidConeNumberArguments"

subsection \<open>Predicates on trees and outcomes used in the statements\<close>

text \<open>An outcome that is a value or one of the package's own exceptions.\<close>

definition typed_outcome :: "error + 'a \<Rightarrow> bool" where
  "typed_outcome r = (case r of Inl e \<Rightarrow> typed_error e | Inr x \<Rightarrow> True)"

text \<open>A computation that leaves the accumulator as it was, up to records added at the end.\<close>

definition only_appends :: "('a, 'f) action \<Rightarrow> bool" where
  "only_appends m = (\<forall>s. \<exists>cs. snd (m s) = s\<lparr>cones := cones s @ cs\<rparr>)"

text \<open>A computation that raises from every accumulator.\<close>

definition fails :: "('a, 'f) action \<Rightarrow> bool" where
  "fails m = (\<forall>s. \<exists>e. fst (m s) = Inl e)"

text \<open>
  A \<^verbatim>\<open>Null\<close> node somewhere else than directly on the right of \<^verbatim>\<open>EQ\<close>, \<^verbatim>\<open>Is\<close> or
  \<^verbatim>\<open>NEQ\<close>.
\<close>

fun stray_null :: "node \<Rightarrow> bool"
  and stray_null_any :: "node list \<Rightarrow> bool"
where
  "stray_null Null = True"
| "stray_null (Literal p) = False"
| "stray_null (Column qualifiers ident) = False"
| "stray_null (Column_star qualifiers) = False"
| "stray_null Other = False"
| "stray_null (Neg e) = stray_null e"
| "stray_null (Not_node e) = stray_null e"
| "stray_null (Paren e) = stray_null e"
| "stray_null (And l r) = (stray_null l \<or> stray_null r)"
| "stray_null (Or l r) = (stray_null l \<or> stray_null r)"
| "stray_null (EQ l r) = (stray_null l \<or> (\<not> is_Null r \<and> stray_null r))"
| "stray_null (Is l r) = (stray_null l \<or> (\<not> is_Null r \<and> stray_null r))"
| "stray_null (NEQ l r) = (stray_null l \<or> (\<not> is_Null r \<and> stray_null r))"
| "stray_null (GT l r) = (stray_null l \<or> stray_null r)"
| "stray_null (LT l r) = (stray_null l \<or> stray_null r)"
| "stray_null (GTE l r) = (stray_null l \<or> stray_null r)"
| "stray_null (LTE l r) = (stray_null l \<or> stray_null r)"
| "stray_null (RegexpLike l r) = (stray_null l \<or> stray_null r)"
| "stray_null (Add l r) = (stray_null l \<or> stray_null r)"
| "stray_null (Sub l r) = (stray_null l \<or> stray_null r)"
| "stray_null (Mul l r) = (stray_null l \<or> stray_null r)"
| "stray_null (Div l r) = (stray_null l \<or> stray_null r)"
| "stray_null (Between e low high) = (stray_null e \<or> stray_null low \<or> stray_null high)"
| "stray_null (In e expressions) = (stray_null e \<or> stray_null_any expressions)"
| "stray_null (Anonymous name expressions) = stray_null_any expressions"
| "stray_null (Anonymous_quoted ident expressions) = stray_null_any expressions"
| "stray_null_any [] = False"
| "stray_null_any (e # es) = (stray_null e \<or> stray_null_any es)"

text \<open>
  A call of \<^verbatim>\<open>cone\<close> with a number of arguments other than three, at a place the
  traversal can reach (the arguments of another function are never resolved).
\<close>

fun wrong_arity :: "node \<Rightarrow> bool"
  and wrong_arity_any :: "node list \<Rightarrow> bool"
where
  "wrong_arity (Anonymous name expressions) =
     (lower name = ''cone'' \<and> (length expressions \<noteq> 3 \<or> wrong_arity_any expressions))"
| "wrong_arity (Literal p) = False"
| "wrong_arity (Column qualifiers ident) = False"
| "wrong_arity (Column_star qualifiers) = False"
| "wrong_arity (Anonymous_quoted ident expressions) = False"
| "wrong_arity Null = False"
| "wrong_arity Other = False"
| "wrong_arity (Neg e) = wrong_arity e"
| "wrong_arity (Not_node e) = wrong_arity e"
| "wrong_arity (Paren e) = wrong_arity e"
| "wrong_arity (And l r) = (wrong_arity l \<or> wrong_arity r)"
| "wrong_arity (Or l r) = (wrong_arity l \<or> wrong_arity r)"
| "wrong_arity (EQ l r) = (wrong_arity l \<or> wrong_arity r)"
| "wrong_arity (Is l r) = (wrong_arity l \<or> wrong_arity r)"
| "wrong_arity (NEQ l r) = (wrong_arity l \<or> wrong_arity r)"
| "wrong_arity (GT l r) = (wrong_arity l \<or> wrong_arity r)"
| "wrong_arity (LT l r) = (wrong_arity l \<or> wrong_arity r)"
| "wrong_arity (GTE l r) = (wrong_arity l \<or> wrong_arity r)"
| "wrong_arity (LTE l r) = (wrong_arity l \<or> wrong_arity r)"
| "wrong_arity (RegexpLike l r) = (wrong_arity l \<or> wrong_arity r)"
| "wrong_arity (Add l r) = (wrong_arity l \<or> wrong_arity r)"
| "wrong_arity (Sub l r) = (wrong_arity l \<or> wrong_arity r)"
| "wrong_arity (Mul l r) = (wrong_arity l \<or> wrong_arity r)"
| "wrong_arity (Div l r) = (wrong_arity l \<or> wrong_arity r)"
| "wrong_arity (Between e low high) = (wrong_arity e \<or> wrong_arity low \<or> wrong_arity high)"
| "wrong_arity (In e expressions) = (wrong_arity e \<or> wrong_arity_any expressions)"
| "wrong_arity_any [] = False"
| "wrong_arity_any (e # es) = (wrong_arity e \<or> wrong_arity_any es)"

text \<open>
  Nodes that give a \<^verbatim>\<open>Value\<close> when they resolve, and nodes that give a \<^verbatim>\<open>Q\<close> when
  they resolve.
\<close>

fun value_node :: "node \<Rightarrow> bool" where
  "value_node (Literal p) = True"
| "value_node (Column qualifiers ident) = quoted ident"
| "value_node (Neg e) = nonstring_literal e"
| "value_node (Paren e) = value_node e"
| "value_node e = False"

fun q_node :: "node \<Rightarrow> bool" where
  "q_node (Not_node e) = True"
| "q_node (And l r) = True"
| "q_node (Or l r) = True"
| "q_node (Between e low high) = True"
| "q_node (Anonymous name expressions) = True"
| "q_node (Paren e) = q_node e"
| "q_node e = False"

text \<open>
  The qualifiers of a column path name relations that exist, each on the model the
  previous one leads to.
\<close>

fun follows_relations :: "('m, 'f) env \<Rightarrow> 'm \<Rightarrow> ident list \<Rightarrow> 'm option" where
  "follows_relations env m [] = Some m"
| "follows_relations env m (q # qs) =
     (case get_field env m (this q) of
        None \<Rightarrow> None
      | Some fld \<Rightarrow>
          (case related_model fld of
             None \<Rightarrow> None
           | Some m' \<Rightarrow> follows_relations env m' qs))"

text \<open>
  The exception that resolving a tree raises, if any, read off the tree, the schema and
  the built-ins alone: neither the accumulator nor the objects built take part. Operands
  are looked at in the order in which they are resolved, and the first exception wins.
  After the operands have resolved, unary minus raises on a \<^verbatim>\<open>Q\<close>, arithmetic raises
  between two \<^verbatim>\<open>Q\<close> objects, and \<^verbatim>\<open>.value\<close> raises on a cone argument that is not a
  \<^verbatim>\<open>Value\<close>.
\<close>

definition or_else :: "error option \<Rightarrow> error option \<Rightarrow> error option" where
  "or_else a b = (case a of Some e \<Rightarrow> Some e | None \<Rightarrow> b)"

fun first_exception :: "('m, 'f) env \<Rightarrow> node \<Rightarrow> error option"
  and first_exception_all :: "('m, 'f) env \<Rightarrow> node list \<Rightarrow> error option"
  and first_exception_args :: "('m, 'f) env \<Rightarrow> node list \<Rightarrow> error option"
where
  "first_exception env (Literal p) =
     (if is_string p then None
      else if is_int p then
        (case py_int env (lit_this p) of None \<Rightarrow> Some ValueError | Some n \<Rightarrow> None)
      else if is_number p then
        (case py_float env (lit_this p) of None \<Rightarrow> Some ValueError | Some x \<Rightarrow> None)
      else Some InvalidLiteral)"
| "first_exception env (Column qualifiers ident) =
     (if quoted ident then None
      else (case resolve_column env (parts qualifiers ident) of
              Inl e \<Rightarrow> Some e
            | Inr r \<Rightarrow> None))"
| "first_exception env (Column_star qualifiers) = Some AttributeError"
| "first_exception env (Neg e) =
     or_else (first_exception env e) (if q_node e then Some TypeError else None)"
| "first_exception env (Not_node e) = first_exception env e"
| "first_exception env (Paren e) = first_exception env e"
| "first_exception env (And l r) = or_else (first_exception env l) (first_exception env r)"
| "first_exception env (Or l r) = or_else (first_exception env l) (first_exception env r)"
| "first_exception env (EQ l r) =
     (if is_Null r then first_exception env l
      else or_else (first_exception env l) (first_exception env r))"
| "first_exception env (Is l r) =
     (if is_Null r then first_exception env l
      else or_else (first_exception env l) (first_exception env r))"
| "first_exception env (NEQ l r) =
     (if is_Null r then first_exception env l
      else or_else (first_exception env l) (first_exception env r))"
| "first_exception env (GT l r) = or_else (first_exception env l) (first_exception env r)"
| "first_exception env (LT l r) = or_else (first_exception env l) (first_exception env r)"
| "first_exception env (GTE l r) = or_else (first_exception env l) (first_exception env r)"
| "first_exception env (LTE l r) = or_else (first_exception env l) (first_exception env r)"
| "first_exception env (RegexpLike l r) =
     or_else (first_exception env l) (first_exception env r)"
| "first_exception env (Add l r) =
     or_else (first_exception env l) (or_else (first_exception env r)
       (if q_node l \<and> q_node r then Some TypeError else None))"
| "first_exception env (Sub l r) =
     or_else (first_exception env l) (or_else (first_exception env r)
       (if q_node l \<and> q_node r then Some TypeError else None))"
| "first_exception env (Mul l r) =
     or_else (first_exception env l) (or_else (first_exception env r)
       (if q_node l \<and> q_node r then Some TypeError else None))"
| "first_exception env (Div l r) =
     or_else (first_exception env l) (or_else (first_exception env r)
       (if q_node l \<and> q_node r then Some TypeError else None))"
| "first_exception env (Between e low high) =
     or_else (first_exception env e)
       (or_else (first_exception env low) (first_exception env high))"
| "first_exception env (In e expressions) =
     or_else (first_exception env e) (first_exception_all env expressions)"
| "first_exception env (Anonymous name expressions) =
     (if lower name = ''cone'' then
        (if length expressions = 3 then first_exception_args env expressions
         else Some InvalidConeNumberArguments)
      else Some InvalidQuery)"
| "first_exception env (Anonymous_quoted ident expressions) = Some AttributeError"
| "first_exception env Null = Some InvalidQuery"
| "first_exception env Other = Some InvalidQuery"
| "first_exception_all env [] = None"
| "first_exception_all env (e # es) =
     or_else (first_exception env e) (first_exception_all env es)"
| "first_exception_args env [] = None"
| "first_exception_args env (e # es) =
     or_else (first_exception env e)
       (if value_node e then first_exception_args env es else Some AttributeError)"

text \<open>The first exception is none of the package's four.\<close>

definition untyped_fault :: "('m, 'f) env \<Rightarrow> node \<Rightarrow> bool" where
  "untyped_fault env t =
     (case first_exception env t of None \<Rightarrow> False | Some e \<Rightarrow> \<not> typed_error e)"

text \<open>
  A computation that raises the given exception from every accumulator, or returns a
  value from every accumulator when none is given.
\<close>

definition agrees :: "('a, 'f) action \<Rightarrow> error option \<Rightarrow> bool" where
  "agrees m x =
     (\<forall>s. case x of Some e \<Rightarrow> fst (m s) = Inl e | None \<Rightarrow> (\<exists>r. fst (m s) = Inr r))"

text \<open>
  Resolution comes to a \<^verbatim>\<open>Null\<close> node that is not directly on the right of \<^verbatim>\<open>EQ\<close>,
  \<^verbatim>\<open>Is\<close> or \<^verbatim>\<open>NEQ\<close>, nothing before it having raised: every operand resolved
  earlier raises no exception, and every earlier argument of the same \<^verbatim>\<open>cone\<close> call
  is a node that gives a \<^verbatim>\<open>Value\<close>.
\<close>

fun reaches_null :: "('m, 'f) env \<Rightarrow> node \<Rightarrow> bool"
  and reaches_null_any :: "('m, 'f) env \<Rightarrow> node list \<Rightarrow> bool"
  and reaches_null_args :: "('m, 'f) env \<Rightarrow> node list \<Rightarrow> bool"
where
  "reaches_null env Null = True"
| "reaches_null env (Literal p) = False"
| "reaches_null env (Column qualifiers ident) = False"
| "reaches_null env (Column_star qualifiers) = False"
| "reaches_null env (Anonymous_quoted ident expressions) = False"
| "reaches_null env Other = False"
| "reaches_null env (Neg e) = reaches_null env e"
| "reaches_null env (Not_node e) = reaches_null env e"
| "reaches_null env (Paren e) = reaches_null env e"
| "reaches_null env (And l r) =
     (reaches_null env l \<or> (first_exception env l = None \<and> reaches_null env r))"
| "reaches_null env (Or l r) =
     (reaches_null env l \<or> (first_exception env l = None \<and> reaches_null env r))"
| "reaches_null env (EQ l r) =
     (reaches_null env l \<or>
      (\<not> is_Null r \<and> first_exception env l = None \<and> reaches_null env r))"
| "reaches_null env (Is l r) =
     (reaches_null env l \<or>
      (\<not> is_Null r \<and> first_exception env l = None \<and> reaches_null env r))"
| "reaches_null env (NEQ l r) =
     (reaches_null env l \<or>
      (\<not> is_Null r \<and> first_exception env l = None \<and> reaches_null env r))"
| "reaches_null env (GT l r) =
     (reaches_null env l \<or> (first_exception env l = None \<and> reaches_null env r))"
| "reaches_null env (LT l r) =
     (reaches_null env l \<or> (first_exception env l = None \<and> reaches_null env r))"
| "reaches_null env (GTE l r) =
     (reaches_null env l \<or> (first_exception env l = None \<and> reaches_null env r))"
| "reaches_null env (LTE l r) =
     (reaches_null env l \<or> (first_exception env l = None \<and> reaches_null env r))"
| "reaches_null env (RegexpLike l r) =
     (reaches_null env l \<or> (first_exception env l = None \<and> reaches_null env r))"
| "reaches_null env (Add l r) =
     (reaches_null env l \<or> (first_exception env l = None \<and> reaches_null env r))"
| "reaches_null env (Sub l r) =
     (reaches_null env l \<or> (first_exception env l = None \<and> reaches_null env r))"
| "reaches_null env (Mul l r) =
     (reaches_null env l \<or> (first_exception env l = None \<and> reaches_null env r))"
| "reaches_null env (Div l r) =
     (reaches_null env l \<or> (first_exception env l = None \<and> reaches_null env r))"
| "reaches_null env (Between e low high) =
     (reaches_null env e \<or>
      (first_exception env e = None \<and>
       (reaches_null env low \<or> (first_exception env low = None \<and> reaches_null env high))))"
| "reaches_null env (In e expressions) =
     (reaches_null env e \<or> (first_exception env e = None \<and> reaches_null_any env expressions))"
| "reaches_null env (Anonymous name expressions) =
     (lower name = ''cone'' \<and> length expressions = 3 \<and> reaches_null_args env expressions)"
| "reaches_null_any env [] = False"
| "reaches_null_any env (e # es) =
     (reaches_null env e \<or> (first_exception env e = None \<and> reaches_null_any env es))"
| "reaches_null_args env [] = False"
| "reaches_null_args env (e # es) =
     (reaches_null env e \<or>
      (first_exception env e = None \<and> value_node e \<and> reaches_null_args env es))"

text \<open>
  The cone calls of a tree, each given by its argument list, in the order of the source
  text: left to right, a call before the calls inside its arguments.
\<close>

fun cone_calls :: "node \<Rightarrow> node list list"
  and cone_calls_all :: "node list \<Rightarrow> node list list"
where
  "cone_calls (Anonymous name expressions) =
     (if lower name = ''cone'' then expressions # cone_calls_all expressions
      else cone_calls_all expressions)"
| "cone_calls (Literal p) = []"
| "cone_calls (Column qualifiers ident) = []"
| "cone_calls (Column_star qualifiers) = []"
| "cone_calls (Anonymous_quoted ident expressions) = cone_calls_all expressions"
| "cone_calls Null = []"
| "cone_calls Other = []"
| "cone_calls (Neg e) = cone_calls e"
| "cone_calls (Not_node e) = cone_calls e"
| "cone_calls (Paren e) = cone_calls e"
| "cone_calls (And l r) = cone_calls l @ cone_calls r"
| "cone_calls (Or l r) = cone_calls l @ cone_calls r"
| "cone_calls (EQ l r) = cone_calls l @ cone_calls r"
| "cone_calls (Is l r) = cone_calls l @ cone_calls r"
| "cone_calls (NEQ l r) = cone_calls l @ cone_calls r"
| "cone_calls (GT l r) = cone_calls l @ cone_calls r"
| "cone_calls (LT l r) = cone_calls l @ cone_calls r"
| "cone_calls (GTE l r) = cone_calls l @ cone_calls r"
| "cone_calls (LTE l r) = cone_calls l @ cone_calls r"
| "cone_calls (RegexpLike l r) = cone_calls l @ cone_calls r"
| "cone_calls (Add l r) = cone_calls l @ cone_calls r"
| "cone_calls (Sub l r) = cone_calls l @ cone_calls r"
| "cone_calls (Mul l r) = cone_calls l @ cone_calls r"
| "cone_calls (Div l r) = cone_calls l @ cone_calls r"
| "cone_calls (Between e low high) = cone_calls e @ cone_calls low @ cone_calls high"
| "cone_calls (In e expressions) = cone_calls e @ cone_calls_all expressions"
| "cone_calls_all [] = []"
| "cone_calls_all (e # es) = cone_calls e @ cone_calls_all es"

text \<open>No cone call occurs inside the subject of a \<^verbatim>\<open>Between\<close> node.\<close>

fun between_subjects_cone_free :: "node \<Rightarrow> bool"
  and between_subjects_cone_free_all :: "node list \<Rightarrow> bool"
where
  "between_subjects_cone_free (Between e low high) =
     (cone_calls e = [] \<and> between_subjects_cone_free low \<and> between_subjects_cone_free high)"
| "between_subjects_cone_free (Literal p) = True"
| "between_subjects_cone_free (Column qualifiers ident) = True"
| "between_subjects_cone_free (Column_star qualifiers) = True"
| "between_subjects_cone_free (Anonymous_quoted ident expressions) =
     between_subjects_cone_free_all expressions"
| "between_subjects_cone_free Null = True"
| "between_subjects_cone_free Other = True"
| "between_subjects_cone_free (Neg e) = between_subjects_cone_free e"
| "between_subjects_cone_free (Not_node e) = between_subjects_cone_free e"
| "between_subjects_cone_free (Paren e) = between_subjects_cone_free e"
| "between_subjects_cone_free (And l r) = (between_subjects_cone_free l \<and> between_subjects_cone_free r)"
| "between_subjects_cone_free (Or l r) = (between_subjects_cone_free l \<and> between_subjects_cone_free r)"
| "between_subjects_cone_free (EQ l r) = (between_subjects_cone_free l \<and> between_subjects_cone_free r)"
| "between_subjects_cone_free (Is l r) = (between_subjects_cone_free l \<and> between_subjects_cone_free r)"
| "between_subjects_cone_free (NEQ l r) = (between_subjects_cone_free l \<and> between_subjects_cone_free r)"
| "between_subjects_cone_free (GT l r) = (between_subjects_cone_free l \<and> between_subjects_cone_free r)"
| "between_subjects_cone_free (LT l r) = (between_subjects_cone_free l \<and> between_subjects_cone_free r)"
| "between_subjects_cone_free (GTE l r) = (between_subjects_cone_free l \<and> between_subjects_cone_free r)"
| "between_subjects_cone_free (LTE l r) = (between_subjects_cone_free l \<and> between_subjects_cone_free r)"
| "between_subjects_cone_free (RegexpLike l r) = (between_subjects_cone_free l \<and> between_subjects_cone_free r)"
| "between_subjects_cone_free (Add l r) = (between_subjects_cone_free l \<and> between_subjects_cone_free r)"
| "between_subjects_cone_free (Sub l r) = (between_subjects_cone_free l \<and> between_subjects_cone_free r)"
| "between_subjects_cone_free (Mul l r) = (between_subjects_cone_free l \<and> between_subjects_cone_free r)"
| "between_subjects_cone_free (Div l r) = (between_subjects_cone_free l \<and> between_subjects_cone_free r)"
| "between_subjects_cone_free (In e expressions) =
     (between_subjects_cone_free e \<and> between_subjects_cone_free_all expressions)"
| "between_subjects_cone_free (Anonymous name expressions) = between_subjects_cone_free_all expressions"
| "between_subjects_cone_free_all [] = True"
| "between_subjects_cone_free_all (e # es) =
     (between_subjects_cone_free e \<and> between_subjects_cone_free_all es)"

text \<open>
  The scalar an argument of \<^verbatim>\<open>cone\<close> stands for, read off the node: a literal, a
  quoted identifier, a negated numeric literal, or one of these in parentheses. The
  record of a call is made of the scalars of its three arguments.
\<close>

fun arg_value :: "('m, 'f) env \<Rightarrow> node \<Rightarrow> 'f pyval option" where
  "arg_value env (Literal p) =
     (if is_string p then Some (PyStr (lit_this p))
      else if is_int p then map_option PyInt (py_int env (lit_this p))
      else if is_number p then map_option PyFloat (py_float env (lit_this p))
      else None)"
| "arg_value env (Column qualifiers ident) =
     (if quoted ident then Some (PyStr (this ident)) else None)"
| "arg_value env (Neg e) =
     (if nonstring_literal e then
        (case arg_value env e of
           None \<Rightarrow> None
         | Some v \<Rightarrow> (case py_neg env v of Inl err \<Rightarrow> None | Inr w \<Rightarrow> Some w))
      else None)"
| "arg_value env (Paren e) = arg_value env e"
| "arg_value env e = None"

fun cone_record :: "('m, 'f) env \<Rightarrow> node list \<Rightarrow> 'f cone_params option" where
  "cone_record env [e0, e1, e2] =
     (case (arg_value env e0, arg_value env e1, arg_value env e2) of
        (Some ra, Some dec, Some radius) \<Rightarrow>
          Some \<lparr>cone_ra = ra, cone_dec = dec, cone_radius = radius\<rparr>
      | _ \<Rightarrow> None)"
| "cone_record env expressions = None"

text \<open>A computation that, when it returns a value, has added exactly the given records.\<close>

definition appends :: "('a, 'f) action \<Rightarrow> 'f cone_params option list \<Rightarrow> bool" where
  "appends m xs = (\<forall>s r s'. m s = (Inr r, s') \<longrightarrow> map Some (cones s') = map Some (cones s) @ xs)"

text \<open>
  The names of the synthetic cone fields in a built object, left to right, and the name
  that \<^verbatim>\<open>_resolve_cone\<close> forms from an index.
\<close>

fun cone_names :: "'f dj \<Rightarrow> string list" where
  "cone_names (Q_kwargs k v) = [k]"
| "cone_names (Value v) = []"
| "cone_names (F n) = []"
| "cone_names (CombinedExpression x c y) = cone_names x @ cone_names y"
| "cone_names (Exact x y) = cone_names x @ cone_names y"
| "cone_names (IContains x y) = cone_names x @ cone_names y"
| "cone_names (GreaterThan x y) = cone_names x @ cone_names y"
| "cone_names (LessThan x y) = cone_names x @ cone_names y"
| "cone_names (GreaterThanOrEqual x y) = cone_names x @ cone_names y"
| "cone_names (LessThanOrEqual x y) = cone_names x @ cone_names y"
| "cone_names (In_lookup x ys) = cone_names x @ concat (map cone_names ys)"
| "cone_names (IsNull x b) = cone_names x"
| "cone_names (NegatedExpression x) = cone_names x"
| "cone_names (Q x) = cone_names x"
| "cone_names (Q_not x) = cone_names x"
| "cone_names (Q_and x y) = cone_names x @ cone_names y"
| "cone_names (Q_or x y) = cone_names x @ cone_names y"

definition cone_query_name :: "nat \<Rightarrow> string" where
  "cone_query_name cone_index = ''cone_query'' @ cone_index_str cone_index"

text \<open>
  A computation whose result, when it returns one, carries the given names followed by
  the cone names numbered from the length of \<^verbatim>\<open>cones\<close> before up to its length after.
\<close>

definition numbered :: "('a \<Rightarrow> string list) \<Rightarrow> string list \<Rightarrow> ('a, 'f) action \<Rightarrow> bool" where
  "numbered names before m =
     (\<forall>s r s'. m s = (Inr r, s') \<longrightarrow>
        length (cones s) \<le> length (cones s') \<and>
        names r = before @ map cone_query_name [length (cones s)..<length (cones s')])"

subsection \<open>A schema and trees to run the resolver on\<close>

text \<open>
  Two models: the main one has the plain fields \<^verbatim>\<open>name\<close>, \<^verbatim>\<open>age\<close>, \<^verbatim>\<open>ra\<close> and the
  relation \<^verbatim>\<open>related\<close>, whose target has the plain field \<^verbatim>\<open>title\<close>. Floats are kept
  as the text they were read from, under the minus signs applied to them.
\<close>

datatype demo_model = MainModel | RelatedModel

datatype demo_float = Float_of string | Float_minus demo_float

fun demo_get_field :: "demo_model \<Rightarrow> string \<Rightarrow> demo_model field option" where
  "demo_get_field MainModel n =
     (if n = ''name'' \<or> n = ''age'' \<or> n = ''ra'' then Some (Field None)
      else if n = ''related'' then Some (Field (Some RelatedModel))
      else None)"
| "demo_get_field RelatedModel n =
     (if n = ''title'' then Some (Field None) else None)"

definition demo_digit :: "char \<Rightarrow> bool" where
  "demo_digit c = (48 \<le> (of_char c :: nat) \<and> (of_char c :: nat) \<le> 57)"

definition demo_int :: "string \<Rightarrow> int option" where
  "demo_int text =
     (if text \<noteq> [] \<and> list_all demo_digit text
      then Some (foldl (\<lambda>n c. 10 * n + (of_char c - 48)) 0 text)
      else None)"

definition demo_float_of :: "string \<Rightarrow> demo_float option" where
  "demo_float_of text =
     (if text \<noteq> [] \<and> list_all (\<lambda>c. demo_digit c \<or> c = CHR ''.'') text
      then Some (Float_of text)
      else None)"

definition demo_env :: "(demo_model, demo_float) env" where
  "demo_env = \<lparr>model = MainModel, get_field = demo_get_field, py_int = demo_int,
     py_float = demo_float_of, float_neg = Float_minus\<rparr>"

text \<open>The nodes the parser gives for \<^verbatim>\<open>18\<close>, \<^verbatim>\<open>10.5\<close>, \<^verbatim>\<open>'abc'\<close> and a bare name.\<close>

definition int_lit :: "string \<Rightarrow> node" where
  "int_lit text = Literal \<lparr>lit_this = text, is_string = False, is_int = True, is_number = True\<rparr>"

definition dec_lit :: "string \<Rightarrow> node" where
  "dec_lit text = Literal \<lparr>lit_this = text, is_string = False, is_int = False, is_number = True\<rparr>"

definition str_lit :: "string \<Rightarrow> node" where
  "str_lit text = Literal \<lparr>lit_this = text, is_string = True, is_int = False, is_number = False\<rparr>"

definition name_ident :: "string \<Rightarrow> ident" where
  "name_ident n = \<lparr>this = n, quoted = False\<rparr>"

definition col :: "string \<Rightarrow> node" where
  "col n = Column [] (name_ident n)"

section \<open>Properties\<close>

subsection \<open>Sequencing\<close>

lemma and_then_Inl: "m s = (Inl e, s') \<Longrightarrow> and_then m k s = (Inl e, s')"
  by (simp add: and_then_def)

lemma and_then_Inr: "m s = (Inr x, s') \<Longrightarrow> and_then m k s = k x s'"
  by (simp add: and_then_def)

lemma and_then_returns [simp]: "and_then (returns x) k s = k x s"
  by (simp add: and_then_def returns_def)

lemma and_then_raises [simp]: "and_then (raises e) k s = (Inl e, s)"
  by (simp add: and_then_def raises_def)

lemma and_then_lift_Inr [simp]: "and_then (lift (Inr x)) k s = k x s"
  by (simp add: and_then_def lift_def)

lemma and_then_lift_Inl [simp]: "and_then (lift (Inl e)) k s = (Inl e, s)"
  by (simp add: and_then_def lift_def)

lemma and_then_Inl_cases:
  assumes "fst (and_then m k s) = Inl e"
  obtains "fst (m s) = Inl e" | x s' where "m s = (Inr x, s')" and "fst (k x s') = Inl e"
proof -
  obtain r s' where ms: "m s = (r, s')" by (cases "m s")
  show thesis
  proof (cases r)
    case (Inl e')
    with ms assms have "fst (m s) = Inl e" by (simp add: and_then_Inl)
    then show thesis by (rule that(1))
  next
    case (Inr x)
    with ms assms have "m s = (Inr x, s')" and "fst (k x s') = Inl e"
      by (simp_all add: and_then_Inr)
    then show thesis by (rule that(2))
  qed
qed

lemma and_then_Inr_cases:
  assumes "and_then m k s = (Inr r, s')"
  obtains x s1 where "m s = (Inr x, s1)" and "k x s1 = (Inr r, s')"
proof -
  obtain q s1 where ms: "m s = (q, s1)" by (cases "m s")
  show thesis
  proof (cases q)
    case (Inl e)
    with ms assms show thesis by (simp add: and_then_Inl)
  next
    case (Inr x)
    with ms assms have "m s = (Inr x, s1)" and "k x s1 = (Inr r, s')"
      by (simp_all add: and_then_Inr)
    then show thesis by (rule that)
  qed
qed

lemma raises_never: "raises e s \<noteq> (Inr r, s')"
  by (simp add: raises_def)

lemma py_value_Inr: "py_value r = Inr v \<Longrightarrow> r = Value v"
  by (cases r) simp_all

lemma is_Null_eq: "is_Null r \<longleftrightarrow> r = Null"
  by (cases r) simp_all

subsection \<open>Runs on the example schema\<close>

lemma demo_int_18: "demo_int ''18'' = Some 18"
  by (simp add: demo_int_def demo_digit_def)

lemma demo_float_10_5: "demo_float_of ''10.5'' = Some (Float_of ''10.5'')"
  by (simp add: demo_float_of_def demo_digit_def)

lemma resolve_col_name:
  "resolve demo_env (col ''name'') s = (Inr (F ''name''), s)"
  by (simp add: col_def name_ident_def lift_def parts_def resolve_column_def demo_env_def)

lemma resolve_str_abc:
  "resolve demo_env (str_lit ''abc'') s = (Inr (Value (PyStr ''abc'')), s)"
  by (simp add: str_lit_def returns_def)

lemma str_1: "str (Suc 0) = ''1''"
  by code_simp

lemma lower_cone: "lower ''cone'' = ''cone''"
  by code_simp

lemma lower_CONE: "lower ''CoNe'' = ''cone''"
  by code_simp

lemma demo_int_digits:
  "demo_int ''0'' = Some 0" "demo_int ''1'' = Some 1" "demo_int ''2'' = Some 2"
  "demo_int ''3'' = Some 3" "demo_int ''4'' = Some 4" "demo_int ''5'' = Some 5"
  "demo_int ''6'' = Some 6"
  by (simp_all add: demo_int_def demo_digit_def)

lemma resolve_int_lit:
  "demo_int text = Some n \<Longrightarrow> resolve demo_env (int_lit text) s = (Inr (Value (PyInt n)), s)"
  by (simp add: int_lit_def demo_env_def returns_def)

lemma demo_floats:
  "demo_float_of ''5.3'' = Some (Float_of ''5.3'')"
  "demo_float_of ''0.1'' = Some (Float_of ''0.1'')"
  by (simp_all add: demo_float_of_def demo_digit_def)

lemma resolve_col_ra: "resolve demo_env (col ''ra'') s = (Inr (F ''ra''), s)"
  by (simp add: col_def name_ident_def lift_def parts_def resolve_column_def demo_env_def)

lemma resolve_col_age: "resolve demo_env (col ''age'') s = (Inr (F ''age''), s)"
  by (simp add: col_def name_ident_def lift_def parts_def resolve_column_def demo_env_def)

lemma resolve_col_missing:
  "resolve demo_env (col ''missing'') s = (Inl (FieldDoesNotExist ''missing''), s)"
  by (simp add: col_def name_ident_def lift_def parts_def resolve_column_def demo_env_def)

subsection \<open>Literals\<close>

text \<open>
  Claim C5. A literal whose \<^verbatim>\<open>is_string\<close> is set resolves to a \<^verbatim>\<open>Value\<close> holding its
  text as a string. Otherwise, if \<^verbatim>\<open>is_int\<close> is set and the text is one \<^verbatim>\<open>int\<close>
  reads, it resolves to a \<^verbatim>\<open>Value\<close> holding that integer, not a float; if only
  \<^verbatim>\<open>is_number\<close> is set and the text is one \<^verbatim>\<open>float\<close> reads, to a \<^verbatim>\<open>Value\<close> holding
  that float. A literal of none of the three kinds raises \<^verbatim>\<open>InvalidLiteral\<close>. The
  accumulator is untouched in all four cases.
\<close>

theorem literal_kinds:
  "(is_string p \<longrightarrow> resolve env (Literal p) s = (Inr (Value (PyStr (lit_this p))), s)) \<and>
   (\<not> is_string p \<and> is_int p \<and> py_int env (lit_this p) = Some n \<longrightarrow>
      resolve env (Literal p) s = (Inr (Value (PyInt n)), s)) \<and>
   (\<not> is_string p \<and> \<not> is_int p \<and> is_number p \<and> py_float env (lit_this p) = Some x \<longrightarrow>
      resolve env (Literal p) s = (Inr (Value (PyFloat x)), s)) \<and>
   (\<not> is_string p \<and> \<not> is_int p \<and> \<not> is_number p \<longrightarrow>
      resolve env (Literal p) s = (Inl InvalidLiteral, s))"
  by (simp add: returns_def raises_def)

theorem literal_kinds_witness:
  "resolve demo_env (str_lit ''abc'') init_extra_params = (Inr (Value (PyStr ''abc'')), init_extra_params) \<and>
   resolve demo_env (int_lit ''18'') init_extra_params = (Inr (Value (PyInt 18)), init_extra_params) \<and>
   resolve demo_env (dec_lit ''10.5'') init_extra_params = (Inr (Value (PyFloat (Float_of ''10.5''))), init_extra_params) \<and>
   resolve demo_env (Literal \<lparr>lit_this = ''x'', is_string = False, is_int = False, is_number = False\<rparr>) init_extra_params
     = (Inl InvalidLiteral, init_extra_params)"
  using literal_kinds [where p = "\<lparr>lit_this = ''abc'', is_string = True, is_int = False, is_number = False\<rparr>"
      and env = demo_env and s = init_extra_params]
    literal_kinds [where p = "\<lparr>lit_this = ''18'', is_string = False, is_int = True, is_number = True\<rparr>"
      and env = demo_env and n = 18 and s = init_extra_params]
    literal_kinds [where p = "\<lparr>lit_this = ''10.5'', is_string = False, is_int = False, is_number = True\<rparr>"
      and env = demo_env and x = "Float_of ''10.5''" and s = init_extra_params]
    literal_kinds [where p = "\<lparr>lit_this = ''x'', is_string = False, is_int = False, is_number = False\<rparr>"
      and env = demo_env and s = init_extra_params]
  by (simp add: str_lit_def int_lit_def dec_lit_def demo_env_def demo_int_18 demo_float_10_5)

subsection \<open>Columns\<close>

text \<open>
  Claim C7. A column node whose identifier is quoted resolves to a \<^verbatim>\<open>Value\<close> holding
  the identifier's text as a string, whatever the schema contains: no field is looked
  up and no \<^verbatim>\<open>F\<close> is built. A column node whose identifier is not quoted resolves to
  what \<^verbatim>\<open>_resolve_column\<close> gives on all its parts.
\<close>

theorem quoted_column_is_string:
  "(quoted ident \<longrightarrow> resolve env (Column qualifiers ident) s = (Inr (Value (PyStr (this ident))), s)) \<and>
   (\<not> quoted ident \<longrightarrow>
      resolve env (Column qualifiers ident) s = (resolve_column env (qualifiers @ [ident]), s))"
  by (simp add: returns_def lift_def parts_def)

theorem quoted_column_is_string_witness:
  "demo_get_field MainModel ''name'' = Some (Field None) \<and>
   resolve demo_env (Column [] \<lparr>this = ''name'', quoted = True\<rparr>) init_extra_params
     = (Inr (Value (PyStr ''name'')), init_extra_params) \<and>
   resolve demo_env (Column [] \<lparr>this = ''name'', quoted = False\<rparr>) init_extra_params
     = (Inr (F ''name''), init_extra_params)"
  using quoted_column_is_string [where ident = "\<lparr>this = ''name'', quoted = True\<rparr>" and env = demo_env
      and qualifiers = "[]" and s = init_extra_params]
    quoted_column_is_string [where ident = "\<lparr>this = ''name'', quoted = False\<rparr>" and env = demo_env
      and qualifiers = "[]" and s = init_extra_params]
  by (simp add: resolve_column_def demo_env_def)

subsection \<open>Comparisons with \<^verbatim>\<open>NULL\<close>\<close>

text \<open>
  Claim C6. When the left operand resolves to \<open>a\<close>: with \<^verbatim>\<open>Null\<close> on the right,
  \<^verbatim>\<open>EQ\<close> and \<^verbatim>\<open>Is\<close> give \<^verbatim>\<open>IsNull(a, True)\<close> and \<^verbatim>\<open>NEQ\<close> gives \<^verbatim>\<open>IsNull(a, False)\<close>,
  the right operand not being resolved; with any other right operand, resolving to
  \<open>b\<close>, \<^verbatim>\<open>EQ\<close> and \<^verbatim>\<open>Is\<close> give \<^verbatim>\<open>Exact(a, b)\<close> and \<^verbatim>\<open>NEQ\<close> gives its negation.
\<close>

theorem null_comparisons:
  assumes "resolve env l s = (Inr a, s1)"
  shows "(r = Null \<longrightarrow>
            resolve env (EQ l r) s = (Inr (IsNull a True), s1) \<and>
            resolve env (Is l r) s = (Inr (IsNull a True), s1) \<and>
            resolve env (NEQ l r) s = (Inr (IsNull a False), s1)) \<and>
         (r \<noteq> Null \<and> resolve env r s1 = (Inr b, s2) \<longrightarrow>
            resolve env (EQ l r) s = (Inr (Exact a b), s2) \<and>
            resolve env (Is l r) s = (Inr (Exact a b), s2) \<and>
            resolve env (NEQ l r) s = (Inr (NegatedExpression (Exact a b)), s2))"
proof -
  have n: "is_Null r \<longleftrightarrow> r = Null" by (cases r) simp_all
  show ?thesis using assms
    by (simp add: n and_then_Inr returns_def)
qed

theorem null_comparisons_witness:
  "resolve demo_env (EQ (col ''name'') Null) init_extra_params = (Inr (IsNull (F ''name'') True), init_extra_params) \<and>
   resolve demo_env (Is (col ''name'') Null) init_extra_params = (Inr (IsNull (F ''name'') True), init_extra_params) \<and>
   resolve demo_env (NEQ (col ''name'') Null) init_extra_params = (Inr (IsNull (F ''name'') False), init_extra_params) \<and>
   resolve demo_env (EQ (col ''name'') (str_lit ''abc'')) init_extra_params
     = (Inr (Exact (F ''name'') (Value (PyStr ''abc''))), init_extra_params) \<and>
   resolve demo_env (Is (col ''name'') (str_lit ''abc'')) init_extra_params
     = (Inr (Exact (F ''name'') (Value (PyStr ''abc''))), init_extra_params) \<and>
   resolve demo_env (NEQ (col ''name'') (str_lit ''abc'')) init_extra_params
     = (Inr (NegatedExpression (Exact (F ''name'') (Value (PyStr ''abc'')))), init_extra_params)"
proof -
  have l: "resolve demo_env (col ''name'') init_extra_params = (Inr (F ''name''), init_extra_params)"
    by (rule resolve_col_name)
  have r: "resolve demo_env (str_lit ''abc'') init_extra_params = (Inr (Value (PyStr ''abc'')), init_extra_params)"
    by (rule resolve_str_abc)
  have ne: "str_lit ''abc'' \<noteq> Null" by (simp add: str_lit_def)
  from null_comparisons [OF l, where r = Null] null_comparisons [OF l, where r = "str_lit ''abc''" and b = "Value (PyStr ''abc'')" and ?s2.0 = init_extra_params] r ne
  show ?thesis by simp
qed

subsection \<open>The accumulator only grows\<close>

lemma only_appends_returns: "only_appends (returns x)"
  unfolding only_appends_def returns_def by (intro allI exI [of _ "[]"]) simp

lemma only_appends_raises: "only_appends (raises e)"
  unfolding only_appends_def raises_def by (intro allI exI [of _ "[]"]) simp

lemma only_appends_lift: "only_appends (lift r)"
  unfolding only_appends_def lift_def by (intro allI exI [of _ "[]"]) simp

lemma only_appends_append_cone: "only_appends (append_cone c)"
  unfolding only_appends_def append_cone_def by (intro allI exI [of _ "[c]"]) simp

lemma only_appends_and_then:
  assumes m: "only_appends m" and k: "\<And>x. only_appends (k x)"
  shows "only_appends (and_then m k)"
  unfolding only_appends_def
proof
  fix s
  obtain r s' where ms: "m s = (r, s')" by (cases "m s")
  from m ms obtain cs where s': "s' = s\<lparr>cones := cones s @ cs\<rparr>"
    unfolding only_appends_def by (metis snd_conv)
  show "\<exists>cs. snd (and_then m k s) = s\<lparr>cones := cones s @ cs\<rparr>"
  proof (cases r)
    case (Inl e)
    with ms have "and_then m k s = (Inl e, s')" by (simp add: and_then_Inl)
    with s' show ?thesis by auto
  next
    case (Inr x)
    with ms have eq: "and_then m k s = k x s'" by (simp add: and_then_Inr)
    from k [of x] obtain ds where "snd (k x s') = s'\<lparr>cones := cones s' @ ds\<rparr>"
      unfolding only_appends_def by blast
    with s' eq have "snd (and_then m k s) = s\<lparr>cones := cones s @ (cs @ ds)\<rparr>"
      by simp
    then show ?thesis by blast
  qed
qed

lemmas only_appends_intros =
  only_appends_and_then only_appends_returns only_appends_raises only_appends_lift
  only_appends_append_cone

lemma only_appends_resolve:
  "only_appends (resolve env t)"
  "only_appends (resolve_all env ts)"
  "only_appends (resolve_cone env ts)"
proof (induction env t and env ts and env ts rule: resolve_resolve_all_resolve_cone.induct)
  case (1 env p)
  then show ?case by (simp add: only_appends_intros split: option.splits)
next
  case (4 env e)
  then show ?case by (cases "nonstring_literal e") (simp_all add: only_appends_intros)
qed (simp_all add: only_appends_intros)

text \<open>
  Claim C10. No operation writes \<^verbatim>\<open>extra_params['aliases']\<close>: after resolving any tree
  from the accumulator set by \<^verbatim>\<open>__init__\<close>, whether a value or an exception comes out,
  the alias map is still empty; from any accumulator, the alias map is what it was and
  the accumulator differs from the one before only by records added at the end of
  \<^verbatim>\<open>cones\<close>.
\<close>

theorem aliases_never_written:
  "aliases (snd (resolve env t init_extra_params)) = Map.empty \<and>
   aliases (snd (resolve env t s)) = aliases s \<and>
   (\<exists>cs. snd (resolve env t s) = s\<lparr>cones := cones s @ cs\<rparr>)"
proof -
  have grows: "\<exists>cs. snd (resolve env t s') = s'\<lparr>cones := cones s' @ cs\<rparr>" for s'
    using only_appends_resolve(1) [of env t] unfolding only_appends_def by blast
  from grows [of s] obtain cs where "snd (resolve env t s) = s\<lparr>cones := cones s @ cs\<rparr>" ..
  then have same: "aliases (snd (resolve env t s)) = aliases s" by simp
  from grows [of init_extra_params] obtain ds
    where "snd (resolve env t init_extra_params) = init_extra_params\<lparr>cones := cones init_extra_params @ ds\<rparr>" ..
  then have "aliases (snd (resolve env t init_extra_params)) = Map.empty"
    by (simp add: init_extra_params_def)
  with same grows [of s] show ?thesis by blast
qed

subsection \<open>Column paths with qualifiers\<close>

text \<open>
  Claim C1 asks that a path whose qualifier names a missing or non-relational field
  fails with the package's \<^verbatim>\<open>FieldDoesNotExist\<close> carrying that qualifier. The lookup of
  a qualifier is outside the \<^verbatim>\<open>try\<close>: when the first qualifier is missing on the
  model, what comes out is Django's own exception; when it is a field that is not a
  relation, \<^verbatim>\<open>related_model\<close> is \<^verbatim>\<open>None\<close> and the next lookup is an
  \<^verbatim>\<open>AttributeError\<close>. Neither is the package's exception.
\<close>

theorem qualifier_lookup_not_converted:
  "(\<not> quoted ident \<and> get_field env (model env) (this q) = None \<longrightarrow>
      resolve env (Column (q # qs) ident) s = (Inl (DjangoFieldDoesNotExist (this q)), s)) \<and>
   (\<not> quoted ident \<and> get_field env (model env) (this q) = Some (Field None) \<longrightarrow>
      resolve env (Column (q # qs) ident) s = (Inl AttributeError, s))"
proof -
  obtain nxt rest where ps: "qs @ [ident] = nxt # rest" by (cases "qs @ [ident]") simp_all
  have none: "related_loop env None (nxt # rest) = Inl AttributeError \<or>
              related_loop env None (nxt # rest) = Inr (None, nxt # rest)"
    by (cases rest) simp_all
  show ?thesis using none
    by (auto simp: lift_def parts_def resolve_column_def ps)
qed

theorem qualifier_lookup_not_converted_witness:
  "resolve demo_env (Column [name_ident ''missing''] (name_ident ''name'')) init_extra_params
     = (Inl (DjangoFieldDoesNotExist ''missing''), init_extra_params) \<and>
   resolve demo_env (Column [name_ident ''name''] (name_ident ''title'')) init_extra_params
     = (Inl AttributeError, init_extra_params)"
  using qualifier_lookup_not_converted [where env = demo_env and q = "name_ident ''missing''" and qs = "[]"
      and ident = "name_ident ''name''" and s = init_extra_params]
    qualifier_lookup_not_converted [where env = demo_env and q = "name_ident ''name''" and qs = "[]"
      and ident = "name_ident ''title''" and s = init_extra_params]
  by (simp add: demo_env_def name_ident_def)

subsection \<open>Which exceptions the parts raise\<close>

lemma related_loop_errors:
  "related_loop env mdl ps = Inl e \<Longrightarrow> e = AttributeError \<or> (\<exists>n. e = DjangoFieldDoesNotExist n)"
  by (induction env mdl ps rule: related_loop.induct) (auto split: option.splits)

lemma resolve_column_errors:
  assumes "resolve_column env ps = Inl e"
  shows "e = AttributeError \<or> e = IndexError \<or> (\<exists>n. e = DjangoFieldDoesNotExist n) \<or>
         (\<exists>n. e = FieldDoesNotExist n)"
  using assms related_loop_errors [of env "Some (model env)" ps e]
  by (auto simp: resolve_column_def split: sum.splits option.splits list.splits)

lemma py_value_errors: "py_value r = Inl e \<Longrightarrow> e = AttributeError"
  by (cases r) simp_all

lemma py_neg_errors: "py_neg env v = Inl e \<Longrightarrow> e = TypeError"
  by (cases v) simp_all

lemma dj_neg_errors: "dj_neg r = Inl e \<Longrightarrow> e = TypeError"
  by (simp add: dj_neg_def split: if_splits)

lemma dj_arith_errors: "dj_arith c a b = Inl e \<Longrightarrow> e = TypeError"
  by (simp add: dj_arith_def split: if_splits)

lemma lift_arity [simp]:
  "fst (lift (py_value r) s) \<noteq> Inl InvalidConeNumberArguments"
  "fst (lift (py_neg env v) s) \<noteq> Inl InvalidConeNumberArguments"
  "fst (lift (dj_neg r) s) \<noteq> Inl InvalidConeNumberArguments"
  "fst (lift (dj_arith c a b) s) \<noteq> Inl InvalidConeNumberArguments"
  "fst (lift (resolve_column env ps) s) \<noteq> Inl InvalidConeNumberArguments"
  using py_value_errors [of r InvalidConeNumberArguments]
    py_neg_errors [of env v InvalidConeNumberArguments]
    dj_neg_errors [of r InvalidConeNumberArguments]
    dj_arith_errors [of c a b InvalidConeNumberArguments]
    resolve_column_errors [of env ps InvalidConeNumberArguments]
  by (auto simp: lift_def)

lemma resolve_column_value:
  "resolve_column env ps = Inr r \<Longrightarrow> r = F (join ''__'' (map this ps))"
  by (auto simp: resolve_column_def split: sum.splits option.splits list.splits)

subsection \<open>The number of arguments of \<^verbatim>\<open>cone\<close>\<close>

lemma arity_error_only_from_wrong_arity:
  "fst (resolve env t s) = Inl InvalidConeNumberArguments \<Longrightarrow> wrong_arity t"
  "fst (resolve_all env ts s) = Inl InvalidConeNumberArguments \<Longrightarrow> wrong_arity_any ts"
  "fst (resolve_cone env ts s) = Inl InvalidConeNumberArguments \<Longrightarrow> wrong_arity_any ts \<or> length ts \<noteq> 3"
proof (induction env t and env ts and env ts arbitrary: s and s and s
    rule: resolve_resolve_all_resolve_cone.induct)
  case (1 env p)
  then show ?case by (auto simp: returns_def raises_def split: if_splits option.splits)
next
  case (2 env qualifiers ident)
  then show ?case by (auto simp: returns_def split: if_splits)
next
  case (4 env e)
  then show ?case
    by (cases "nonstring_literal e") (auto elim!: and_then_Inl_cases simp: returns_def)
next
  case (9 env l r)
  then show ?case
    by (cases "is_Null r") (auto elim!: and_then_Inl_cases simp: returns_def)
next
  case (10 env l r)
  then show ?case
    by (cases "is_Null r") (auto elim!: and_then_Inl_cases simp: returns_def)
next
  case (11 env l r)
  then show ?case
    by (cases "is_Null r") (auto elim!: and_then_Inl_cases simp: returns_def)
next
  case (23 env name expressions)
  then show ?case by (auto simp: raises_def split: if_splits)
next
  case (29 env e0 e1 e2)
  then show ?case
    by (auto elim!: and_then_Inl_cases simp: append_cone_def)
qed (auto elim!: and_then_Inl_cases simp: returns_def raises_def)

lemma resolve_cone_wrong_length:
  "length args \<noteq> 3 \<Longrightarrow> resolve_cone env args = raises InvalidConeNumberArguments"
  by (cases args; cases "tl args"; cases "tl (tl args)"; cases "tl (tl (tl args))"; simp)

text \<open>
  Claim C8, amended. \<^verbatim>\<open>_resolve_cone\<close> raises \<^verbatim>\<open>InvalidConeNumberArguments\<close>, leaving
  the accumulator untouched, when the number of arguments is not three. With exactly
  three arguments it does not raise that exception, unless an argument contains a call
  of \<^verbatim>\<open>cone\<close> that has itself a wrong number of arguments, whose exception then
  passes through.
\<close>

theorem cone_argument_count:
  "(length args \<noteq> 3 \<longrightarrow> resolve_cone env args s = (Inl InvalidConeNumberArguments, s)) \<and>
   (length args = 3 \<and> \<not> wrong_arity_any args \<longrightarrow>
      fst (resolve_cone env args s) \<noteq> Inl InvalidConeNumberArguments)"
  using resolve_cone_wrong_length [of args env] arity_error_only_from_wrong_arity(3) [of env args s]
  by (auto simp: raises_def)

theorem cone_argument_count_witness:
  "resolve_cone demo_env [int_lit ''1'', int_lit ''2''] init_extra_params
     = (Inl InvalidConeNumberArguments, init_extra_params) \<and>
   fst (resolve_cone demo_env [int_lit ''1'', int_lit ''2'', int_lit ''3''] init_extra_params)
     \<noteq> Inl InvalidConeNumberArguments"
  using cone_argument_count [where args = "[int_lit ''1'', int_lit ''2'']" and env = demo_env
      and s = init_extra_params]
    cone_argument_count [where args = "[int_lit ''1'', int_lit ''2'', int_lit ''3'']" and env = demo_env
      and s = init_extra_params]
  by (simp add: int_lit_def)

text \<open>
  As claim C8 is worded it fails on \<^verbatim>\<open>cone(cone(1,2), 3, 4)\<close>: three arguments are
  given and \<^verbatim>\<open>InvalidConeNumberArguments\<close> comes out, raised by the inner call.
\<close>

theorem nested_cone_arity_counterexample:
  "length [Anonymous ''cone'' [int_lit ''1'', int_lit ''2''], int_lit ''3'', int_lit ''4''] = 3 \<and>
   resolve_cone demo_env [Anonymous ''cone'' [int_lit ''1'', int_lit ''2''], int_lit ''3'', int_lit ''4'']
     init_extra_params = (Inl InvalidConeNumberArguments, init_extra_params)"
  by (simp add: lower_cone)

subsection \<open>The kind of object a node resolves to\<close>

lemma Q_only_from_q_node:
  "resolve env t s = (Inr r, s') \<Longrightarrow> is_Q r \<Longrightarrow> q_node t"
proof (induction t arbitrary: s s' r)
  case (Literal p)
  then show ?case by (auto simp: returns_def raises_def split: if_splits option.splits)
next
  case (Column qualifiers ident)
  then show ?case
    by (auto simp: returns_def lift_def dest: resolve_column_value split: if_splits)
next
  case (Neg t)
  then show ?case
    by (cases "nonstring_literal t")
       (auto elim!: and_then_Inr_cases simp: returns_def lift_def dj_neg_def split: if_splits)
next
  case (EQ l r')
  then show ?case
    by (cases "is_Null r'") (auto elim!: and_then_Inr_cases simp: returns_def)
next
  case (Is l r')
  then show ?case
    by (cases "is_Null r'") (auto elim!: and_then_Inr_cases simp: returns_def)
next
  case (NEQ l r')
  then show ?case
    by (cases "is_Null r'") (auto elim!: and_then_Inr_cases simp: returns_def)
qed (auto elim!: and_then_Inr_cases simp: returns_def raises_def lift_def dj_arith_def split: if_splits)

lemma nonstring_literal_number:
  "nonstring_literal e \<Longrightarrow> resolve env e s = (Inr r, s') \<Longrightarrow>
     (\<exists>n. r = Value (PyInt n)) \<or> (\<exists>x. r = Value (PyFloat x))"
  by (cases e) (auto simp: returns_def raises_def split: if_splits option.splits)

lemma value_node_Value:
  "value_node t \<Longrightarrow> resolve env t s = (Inr r, s') \<Longrightarrow> \<exists>v. r = Value v"
proof (induction t arbitrary: s s' r rule: value_node.induct)
  case (1 p)
  then show ?case by (auto simp: returns_def raises_def split: if_splits option.splits)
next
  case (2 qualifiers ident)
  then show ?case by (auto simp: returns_def)
next
  case (3 e)
  then show ?case by (auto elim!: and_then_Inr_cases simp: returns_def)
qed auto

lemma Value_only_from_argument:
  "resolve env t s = (Inr (Value v), s') \<Longrightarrow>
     arg_value env t = Some v \<and> s' = s \<and> cone_calls t = []"
proof (induction t arbitrary: s s' v)
  case (Literal p)
  then show ?case by (auto simp: returns_def raises_def split: if_splits option.splits)
next
  case (Column qualifiers ident)
  then show ?case
    by (auto simp: returns_def lift_def dest: resolve_column_value split: if_splits)
next
  case (Neg t)
  show ?case
  proof (cases "nonstring_literal t")
    case True
    then obtain p where t: "t = Literal p" and p: "\<not> is_string p" by (cases t) simp_all
    from Neg.prems True show ?thesis
      by (auto elim!: and_then_Inr_cases simp: t p returns_def raises_def lift_def
          split: if_splits option.splits)
  next
    case False
    with Neg.prems show ?thesis
      by (auto elim!: and_then_Inr_cases simp: lift_def dj_neg_def split: if_splits)
  qed
next
  case (EQ l r')
  then show ?case
    by (cases "is_Null r'") (auto elim!: and_then_Inr_cases simp: returns_def)
next
  case (Is l r')
  then show ?case
    by (cases "is_Null r'") (auto elim!: and_then_Inr_cases simp: returns_def)
next
  case (NEQ l r')
  then show ?case
    by (cases "is_Null r'") (auto elim!: and_then_Inr_cases simp: returns_def)
next
  case (Anonymous name es)
  have "resolve_cone env es s \<noteq> (Inr (Value v), s')"
  proof (cases "length es = 3")
    case False
    then show ?thesis by (simp add: resolve_cone_wrong_length raises_def)
  next
    case True
    then obtain e0 e1 e2 where "es = [e0, e1, e2]"
      by (auto simp: length_Suc_conv numeral_3_eq_3)
    then show ?thesis
      by (auto elim!: and_then_Inr_cases simp: append_cone_def)
  qed
  with Anonymous.prems show ?case by (auto simp: raises_def split: if_splits)
qed (auto elim!: and_then_Inr_cases simp: returns_def raises_def lift_def dj_arith_def split: if_splits)

lemma q_node_Q:
  "resolve env t s = (Inr r, s') \<Longrightarrow> q_node t \<Longrightarrow> is_Q r"
proof (induction t arbitrary: s s' r)
  case (Anonymous name es)
  show ?case
  proof (cases "length es = 3")
    case False
    with Anonymous.prems show ?thesis
      by (auto simp: resolve_cone_wrong_length raises_def split: if_splits)
  next
    case True
    then obtain e0 e1 e2 where "es = [e0, e1, e2]"
      by (auto simp: length_Suc_conv numeral_3_eq_3)
    with Anonymous.prems show ?thesis
      by (auto elim!: and_then_Inr_cases simp: append_cone_def raises_def split: if_splits)
  qed
qed (auto elim!: and_then_Inr_cases simp: returns_def)

lemma q_node_not_literal: "nonstring_literal e \<Longrightarrow> \<not> q_node e"
  by (cases e) simp_all

lemma arg_value_value_node: "arg_value env t = Some v \<Longrightarrow> value_node t"
  by (induction env t arbitrary: v rule: arg_value.induct) (auto split: if_splits)

lemma Value_only_from_value_node:
  "resolve env t s = (Inr (Value v), s') \<Longrightarrow> value_node t"
  using Value_only_from_argument [of env t s v s'] arg_value_value_node [of env t v] by blast

lemma typed_outcome_simps [simp]:
  "typed_outcome (Inr x)"
  "typed_outcome (Inl e) = typed_error e"
  by (simp_all add: typed_outcome_def)

subsection \<open>Column paths along existing relations\<close>

text \<open>
  When every qualifier is a relation that exists, only the last identifier decides: a
  missing field raises the package's \<^verbatim>\<open>FieldDoesNotExist\<close> with its name, an existing
  one gives \<^verbatim>\<open>F\<close> of all the parts joined by two underscores.
\<close>

lemma follows_relations_loop:
  "follows_relations env m qs = Some m' \<Longrightarrow>
     related_loop env (Some m) (qs @ [i]) = Inr (Some m', [i])"
proof (induction qs arbitrary: m)
  case Nil
  then show ?case by simp
next
  case (Cons q qs)
  obtain nxt rest where ps: "qs @ [i] = nxt # rest" by (cases "qs @ [i]") simp_all
  from Cons.prems obtain fld m1 where f: "get_field env m (this q) = Some fld"
    and r: "related_model fld = Some m1" and rest: "follows_relations env m1 qs = Some m'"
    by (auto split: option.splits)
  from Cons.IH [OF rest] have "related_loop env (Some m1) (nxt # rest) = Inr (Some m', [i])"
    by (simp add: ps)
  with f r show ?case by (simp add: ps)
qed

lemma resolve_column_on_relations:
  assumes "follows_relations env (model env) qs = Some m"
  shows "resolve_column env (qs @ [i]) =
           (case get_field env m (this i) of
              None \<Rightarrow> Inl (FieldDoesNotExist (this i))
            | Some fld \<Rightarrow> Inr (F (join ''__'' (map this (qs @ [i])))))"
proof -
  from assms have "related_loop env (Some (model env)) (qs @ [i]) = Inr (Some m, [i])"
    by (rule follows_relations_loop)
  then show ?thesis by (simp add: resolve_column_def)
qed

lemma resolve_related_title:
  "resolve demo_env (Column [name_ident ''related''] (name_ident ''title'')) s
     = (Inr (F ''related__title''), s)"
  using resolve_column_on_relations [where env = demo_env and qs = "[name_ident ''related'']"
      and m = RelatedModel and i = "name_ident ''title''"]
  by (simp add: lift_def parts_def demo_env_def name_ident_def)

text \<open>
  When some qualifier is missing or is not a relation, the path raises an exception that
  is not one of the package's.
\<close>

lemma related_loop_off_relations:
  "follows_relations env m qs = None \<Longrightarrow>
     (\<exists>e. related_loop env (Some m) (qs @ [i]) = Inl e \<and> \<not> typed_error e) \<or>
     related_loop env (Some m) (qs @ [i]) = Inr (None, [i])"
proof (induction qs arbitrary: m)
  case Nil
  then show ?case by simp
next
  case (Cons q qs)
  obtain nxt rest where ps: "qs @ [i] = nxt # rest" by (cases "qs @ [i]") simp_all
  show ?case
  proof (cases "get_field env m (this q)")
    case None
    then show ?thesis by (simp add: ps)
  next
    case (Some fld)
    show ?thesis
    proof (cases "related_model fld")
      case None
      show ?thesis
      proof (cases qs)
        case Nil
        with Some None show ?thesis by simp
      next
        case (Cons q' qs')
        then obtain y ys where "qs' @ [i] = y # ys" by (cases "qs' @ [i]") simp_all
        with Some None Cons show ?thesis by simp
      qed
    next
      case (Some m')
      with \<open>get_field env m (this q) = Some fld\<close> Cons.prems
      have "follows_relations env m' qs = None" by simp
      from Cons.IH [OF this] Some \<open>get_field env m (this q) = Some fld\<close>
      show ?thesis by (simp add: ps)
    qed
  qed
qed

lemma resolve_column_off_relations:
  assumes "follows_relations env (model env) qs = None"
  shows "\<exists>e. resolve_column env (qs @ [i]) = Inl e \<and> \<not> typed_error e"
  using related_loop_off_relations [OF assms, of i]
  by (auto simp: resolve_column_def)

lemma parts_not_empty: "parts qualifiers ident \<noteq> []"
  by (simp add: parts_def)

lemma resolve_column_no_index_error:
  "ps \<noteq> [] \<Longrightarrow> resolve_column env ps \<noteq> Inl IndexError"
proof -
  have loop: "related_loop env mdl ps = Inr (mdl', ps') \<Longrightarrow> ps \<noteq> [] \<Longrightarrow> ps' \<noteq> []"
    for mdl mdl' ps'
    by (induction env mdl ps rule: related_loop.induct) (auto split: option.splits)
  assume "ps \<noteq> []"
  with loop related_loop_errors [of env "Some (model env)" ps IndexError] show ?thesis
    by (auto simp: resolve_column_def split: sum.splits option.splits list.splits)
qed

subsection \<open>The exception raised, read off the tree\<close>

lemma or_else_simps [simp]:
  "or_else None b = b"
  "or_else (Some e) b = Some e"
  "or_else a None = a"
  by (simp_all add: or_else_def split: option.splits)

lemma agrees_returns: "agrees (returns x) None"
  by (simp add: agrees_def returns_def)

lemma agrees_raises: "agrees (raises e) (Some e)"
  by (simp add: agrees_def raises_def)

lemma agrees_append_cone: "agrees (append_cone c) None"
  by (simp add: agrees_def append_cone_def)

lemma agrees_Inr: "agrees m a \<Longrightarrow> m s = (Inr x, s') \<Longrightarrow> a = None"
  by (cases a) (auto simp: agrees_def dest: spec [of _ s])

lemma agrees_and_then:
  assumes m: "agrees m a"
    and k: "\<And>x s s'. m s = (Inr x, s') \<Longrightarrow> agrees (k x) b"
  shows "agrees (and_then m k) (or_else a b)"
proof (cases a)
  case (Some e)
  have "fst (and_then m k s) = Inl e" for s
  proof -
    from m Some have "fst (m s) = Inl e" by (simp add: agrees_def)
    then have "m s = (Inl e, snd (m s))" by (cases "m s") simp
    then show ?thesis by (simp add: and_then_Inl)
  qed
  with Some show ?thesis by (simp add: agrees_def)
next
  case None
  have "case b of Some e \<Rightarrow> fst (and_then m k s) = Inl e
        | None \<Rightarrow> (\<exists>r. fst (and_then m k s) = Inr r)" for s
  proof -
    from m None obtain x where "fst (m s) = Inr x" by (auto simp: agrees_def)
    then have ms: "m s = (Inr x, snd (m s))" by (cases "m s") simp
    then have "and_then m k s = k x (snd (m s))" by (rule and_then_Inr)
    with k [OF ms] show ?thesis by (auto simp: agrees_def split: option.splits)
  qed
  with None show ?thesis by (simp add: agrees_def)
qed

lemma agrees_then_returns:
  assumes "agrees m a"
  shows "agrees (and_then m (\<lambda>x. returns (f x))) a"
  using agrees_and_then [OF assms, of "\<lambda>x. returns (f x)" None] by (simp add: agrees_returns)

lemma agrees_binary:
  assumes "agrees m1 a" and "agrees m2 b"
  shows "agrees (and_then m1 (\<lambda>x. and_then m2 (\<lambda>y. returns (f x y)))) (or_else a b)"
  by (rule agrees_and_then [OF assms(1)]) (rule agrees_then_returns [OF assms(2)])

lemma agrees_minus:
  assumes "agrees (resolve env e) (first_exception env e)" and "\<not> nonstring_literal e"
  shows "agrees (and_then (resolve env e) (\<lambda>r. lift (dj_neg r)))
           (or_else (first_exception env e) (if q_node e then Some TypeError else None))"
proof (rule agrees_and_then [OF assms(1)])
  fix x s s'
  assume r: "resolve env e s = (Inr x, s')"
  from Q_only_from_q_node [OF r] q_node_Q [OF r] have "is_Q x \<longleftrightarrow> q_node e" by blast
  then show "agrees (lift (dj_neg x)) (if q_node e then Some TypeError else None)"
    by (simp add: agrees_def lift_def dj_neg_def)
qed

lemma agrees_minus_literal:
  assumes "agrees (resolve env e) (first_exception env e)" and "nonstring_literal e"
  shows "agrees (and_then (resolve env e) (\<lambda>r. and_then (lift (py_value r))
             (\<lambda>v. and_then (lift (py_neg env v)) (\<lambda>w. returns (Value w)))))
           (or_else (first_exception env e) (if q_node e then Some TypeError else None))"
proof -
  have "agrees (and_then (lift (py_value x)) (\<lambda>v. and_then (lift (py_neg env v))
          (\<lambda>w. returns (Value w)))) None"
    if "resolve env e s = (Inr x, s')" for x s s'
    using nonstring_literal_number [OF assms(2) that] by (auto simp: agrees_def returns_def)
  from agrees_and_then [OF assms(1) this] assms(2) show ?thesis
    by (simp add: q_node_not_literal)
qed

lemma agrees_arith:
  assumes "agrees (resolve env l) (first_exception env l)"
    and "agrees (resolve env r) (first_exception env r)"
  shows "agrees (and_then (resolve env l) (\<lambda>a. and_then (resolve env r) (\<lambda>b. lift (dj_arith c a b))))
           (or_else (first_exception env l) (or_else (first_exception env r)
              (if q_node l \<and> q_node r then Some TypeError else None)))"
proof (rule agrees_and_then [OF assms(1)])
  fix a s s'
  assume l: "resolve env l s = (Inr a, s')"
  from Q_only_from_q_node [OF l] q_node_Q [OF l] have a: "is_Q a \<longleftrightarrow> q_node l" by blast
  show "agrees (and_then (resolve env r) (\<lambda>b. lift (dj_arith c a b)))
          (or_else (first_exception env r) (if q_node l \<and> q_node r then Some TypeError else None))"
  proof (rule agrees_and_then [OF assms(2)])
    fix b t t'
    assume r: "resolve env r t = (Inr b, t')"
    from Q_only_from_q_node [OF r] q_node_Q [OF r] have "is_Q b \<longleftrightarrow> q_node r" by blast
    with a show "agrees (lift (dj_arith c a b)) (if q_node l \<and> q_node r then Some TypeError else None)"
      by (simp add: agrees_def lift_def dj_arith_def)
  qed
qed

lemma agrees_cone_argument:
  assumes "agrees (resolve env e) (first_exception env e)" and "\<And>v. agrees (k v) b"
  shows "agrees (and_then (resolve env e) (\<lambda>r. and_then (lift (py_value r)) k))
           (or_else (first_exception env e) (if value_node e then b else Some AttributeError))"
proof (rule agrees_and_then [OF assms(1)])
  fix x s s'
  assume r: "resolve env e s = (Inr x, s')"
  show "agrees (and_then (lift (py_value x)) k) (if value_node e then b else Some AttributeError)"
  proof (cases "value_node e")
    case True
    with value_node_Value [OF True r] obtain v where "x = Value v" by blast
    with True assms(2) [of v] show ?thesis by (auto simp: agrees_def split: option.splits)
  next
    case False
    with Value_only_from_value_node r have "\<And>v. x \<noteq> Value v" by blast
    then have "py_value x = Inl AttributeError" by (cases x) auto
    with False show ?thesis by (simp add: agrees_def)
  qed
qed

text \<open>
  From every accumulator, resolving a tree raises the exception that \<open>first_exception\<close>
  reads off it, and returns a value when there is none.
\<close>

lemma resolve_raises_first_exception:
  "agrees (resolve env t) (first_exception env t)"
  "agrees (resolve_all env ts) (first_exception_all env ts)"
  "length ts = 3 \<longrightarrow> agrees (resolve_cone env ts) (first_exception_args env ts)"
proof (induction env t and env ts and env ts rule: resolve_resolve_all_resolve_cone.induct)
  case (1 env p)
  then show ?case
    by (auto simp: agrees_def returns_def raises_def split: option.splits)
next
  case (2 env qualifiers ident)
  then show ?case
    by (auto simp: agrees_def returns_def lift_def split: sum.splits)
next
  case (4 env e)
  then show ?case
    by (cases "nonstring_literal e") (simp_all add: agrees_minus agrees_minus_literal)
next
  case (9 env l r)
  then show ?case
    by (cases "is_Null r") (simp_all add: agrees_binary agrees_then_returns)
next
  case (10 env l r)
  then show ?case
    by (cases "is_Null r") (simp_all add: agrees_binary agrees_then_returns)
next
  case (11 env l r)
  then show ?case
    by (cases "is_Null r") (simp_all add: agrees_binary agrees_then_returns)
next
  case (21 env e low high)
  show ?case unfolding resolve.simps first_exception.simps
  proof (rule agrees_and_then [OF "21.IH"(1)])
    fix a s s'
    assume "resolve env e s = (Inr a, s')"
    with "21.IH"(1) have none: "first_exception env e = None" by (rule agrees_Inr)
    have inner: "agrees (and_then (resolve env e) (\<lambda>c. and_then (resolve env high)
          (\<lambda>d. returns (Q_and (Q (GreaterThanOrEqual a b)) (Q (LessThanOrEqual c d))))))
        (first_exception env high)" for b
      using agrees_binary [OF "21.IH"(3) "21.IH"(4),
          where f = "\<lambda>c d. Q_and (Q (GreaterThanOrEqual a b)) (Q (LessThanOrEqual c d))"] none
      by simp
    show "agrees (and_then (resolve env low) (\<lambda>b. and_then (resolve env e)
            (\<lambda>c. and_then (resolve env high)
            (\<lambda>d. returns (Q_and (Q (GreaterThanOrEqual a b)) (Q (LessThanOrEqual c d)))))))
          (or_else (first_exception env low) (first_exception env high))"
      by (rule agrees_and_then [OF "21.IH"(2)]) (rule inner)
  qed
next
  case (23 env name expressions)
  then show ?case
    by (auto simp: resolve_cone_wrong_length agrees_raises)
next
  case (29 env e0 e1 e2)
  have args: "first_exception_args env [e0, e1, e2] =
      or_else (first_exception env e0) (if value_node e0 then
        or_else (first_exception env e1) (if value_node e1 then
          or_else (first_exception env e2) (if value_node e2 then None else Some AttributeError)
        else Some AttributeError)
      else Some AttributeError)"
    by (simp only: first_exception_args.simps)
  show ?case unfolding resolve_cone.simps args
    by (intro impI agrees_cone_argument "29.IH" agrees_append_cone)
qed (simp_all add: agrees_binary agrees_then_returns agrees_arith agrees_returns agrees_raises)

lemma resolve_first_exception:
  "fst (resolve env t s) = Inl e \<longleftrightarrow> first_exception env t = Some e"
  using resolve_raises_first_exception(1) [of env t]
  by (cases "first_exception env t") (auto simp: agrees_def dest: spec [of _ s])

text \<open>
  Besides the package's four exceptions, only \<^verbatim>\<open>AttributeError\<close>, \<^verbatim>\<open>TypeError\<close>,
  \<^verbatim>\<open>ValueError\<close> and Django's \<^verbatim>\<open>FieldDoesNotExist\<close> are ever raised.
\<close>

lemma first_exception_kinds:
  "first_exception env t = Some e \<Longrightarrow>
     typed_error e \<or> e = AttributeError \<or> e = TypeError \<or> e = ValueError \<or>
     (\<exists>n. e = DjangoFieldDoesNotExist n)"
  "first_exception_all env ts = Some e \<Longrightarrow>
     typed_error e \<or> e = AttributeError \<or> e = TypeError \<or> e = ValueError \<or>
     (\<exists>n. e = DjangoFieldDoesNotExist n)"
  "first_exception_args env ts = Some e \<Longrightarrow>
     typed_error e \<or> e = AttributeError \<or> e = TypeError \<or> e = ValueError \<or>
     (\<exists>n. e = DjangoFieldDoesNotExist n)"
proof (induction env t and env ts and env ts arbitrary: e and e and e
    rule: first_exception_first_exception_all_first_exception_args.induct)
  case (2 env qualifiers ident)
  then show ?case
    using resolve_column_errors [of env "parts qualifiers ident" e]
      resolve_column_no_index_error [OF parts_not_empty, of env qualifiers ident]
    by (auto split: if_splits sum.splits)
qed (auto simp: or_else_def split: if_splits option.splits)

lemma demo_env_builtins:
  "py_int demo_env = demo_int" "py_float demo_env = demo_float_of"
  by (simp_all add: demo_env_def)

lemma first_exception_int_lit:
  "demo_int text = Some n \<Longrightarrow> first_exception demo_env (int_lit text) = None"
  by (simp add: int_lit_def demo_env_def)

lemma first_exception_dec_lit:
  "demo_float_of text = Some x \<Longrightarrow> first_exception demo_env (dec_lit text) = None"
  by (simp add: dec_lit_def demo_env_def)

lemma first_exception_cols:
  "first_exception demo_env (col ''age'') = None"
  "first_exception demo_env (col ''ra'') = None"
  "first_exception demo_env (col ''missing'') = Some (FieldDoesNotExist ''missing'')"
  by (simp_all add: col_def name_ident_def parts_def resolve_column_def demo_env_def)

text \<open>
  Claim C2, amended. Resolving a tree gives a value or raises one of
  \<^verbatim>\<open>FieldDoesNotExist\<close>, \<^verbatim>\<open>InvalidQuery\<close>, \<^verbatim>\<open>InvalidLiteral\<close> and
  \<^verbatim>\<open>InvalidConeNumberArguments\<close>, from whatever accumulator, except exactly when the
  first operation to raise, in the order of evaluation, is one of these:
  reading \<^verbatim>\<open>quoted\<close> on a column whose name is a star, or \<^verbatim>\<open>lower\<close> on a function name
  that is a quoted identifier (\<^verbatim>\<open>AttributeError\<close>);
  looking up a qualifier of an unquoted column that is missing (Django's
  \<^verbatim>\<open>FieldDoesNotExist\<close>), or looking up on the \<^verbatim>\<open>related_model\<close> of a qualifier that is
  not a relation (\<^verbatim>\<open>AttributeError\<close>);
  reading \<^verbatim>\<open>value\<close> on a \<^verbatim>\<open>cone\<close> argument that resolved to something else than a
  \<^verbatim>\<open>Value\<close>, such as a field reference (\<^verbatim>\<open>AttributeError\<close>);
  unary minus on a \<^verbatim>\<open>Q\<close>, or arithmetic between two \<^verbatim>\<open>Q\<close> objects (\<^verbatim>\<open>TypeError\<close>);
  \<^verbatim>\<open>int\<close> or \<^verbatim>\<open>float\<close> refusing the text of a literal (\<^verbatim>\<open>ValueError\<close>).
  A string given as \<^verbatim>\<open>cone\<close> argument is a \<^verbatim>\<open>Value\<close> and raises nothing.
\<close>

theorem untyped_fault_exactly:
  "typed_outcome (fst (resolve env t s)) \<longleftrightarrow> \<not> untyped_fault env t"
proof (cases "first_exception env t")
  case None
  with resolve_first_exception [of env t s] have "\<And>e. fst (resolve env t s) \<noteq> Inl e" by simp
  then obtain r where "fst (resolve env t s) = Inr r" by (cases "fst (resolve env t s)") auto
  with None show ?thesis by (simp add: untyped_fault_def)
next
  case (Some e)
  with resolve_first_exception [of env t s e] have "fst (resolve env t s) = Inl e" by simp
  with Some show ?thesis by (simp add: untyped_fault_def)
qed

theorem untyped_fault_exactly_witness:
  "\<not> untyped_fault demo_env
     (And (Anonymous ''cone'' [dec_lit ''10.5'', Neg (dec_lit ''5.3''), dec_lit ''0.1''])
          (EQ (col ''age'') (int_lit ''1''))) \<and>
   typed_outcome (fst (resolve demo_env
     (And (Anonymous ''cone'' [dec_lit ''10.5'', Neg (dec_lit ''5.3''), dec_lit ''0.1''])
          (EQ (col ''age'') (int_lit ''1''))) init_extra_params)) \<and>
   \<not> untyped_fault demo_env (Anonymous ''cone'' [col ''missing'', int_lit ''1'', int_lit ''2'']) \<and>
   typed_outcome (fst (resolve demo_env
     (Anonymous ''cone'' [col ''missing'', int_lit ''1'', int_lit ''2'']) init_extra_params)) \<and>
   untyped_fault demo_env (Anonymous ''cone'' [col ''ra'', int_lit ''1'', int_lit ''2'']) \<and>
   \<not> typed_outcome (fst (resolve demo_env
     (Anonymous ''cone'' [col ''ra'', int_lit ''1'', int_lit ''2'']) init_extra_params)) \<and>
   untyped_fault demo_env (Column_star [name_ident ''related'']) \<and>
   \<not> typed_outcome (fst (resolve demo_env (Column_star [name_ident ''related'']) init_extra_params)) \<and>
   untyped_fault demo_env
     (Anonymous_quoted \<lparr>this = ''cone'', quoted = True\<rparr> [int_lit ''1'', int_lit ''2'', int_lit ''3'']) \<and>
   \<not> typed_outcome (fst (resolve demo_env
     (Anonymous_quoted \<lparr>this = ''cone'', quoted = True\<rparr> [int_lit ''1'', int_lit ''2'', int_lit ''3''])
     init_extra_params))"
proof -
  have u1: "\<not> untyped_fault demo_env
     (And (Anonymous ''cone'' [dec_lit ''10.5'', Neg (dec_lit ''5.3''), dec_lit ''0.1''])
          (EQ (col ''age'') (int_lit ''1'')))"
    by (simp add: untyped_fault_def lower_cone demo_float_10_5 demo_floats first_exception_cols
        demo_int_digits dec_lit_def int_lit_def demo_env_builtins)
  have u2: "\<not> untyped_fault demo_env (Anonymous ''cone'' [col ''missing'', int_lit ''1'', int_lit ''2''])"
    by (simp add: untyped_fault_def lower_cone first_exception_cols)
  have u3: "untyped_fault demo_env (Anonymous ''cone'' [col ''ra'', int_lit ''1'', int_lit ''2''])"
    by (simp add: untyped_fault_def lower_cone col_def name_ident_def parts_def resolve_column_def
        demo_env_def)
  have u4: "untyped_fault demo_env (Column_star [name_ident ''related''])"
    by (simp add: untyped_fault_def)
  have u5: "untyped_fault demo_env
     (Anonymous_quoted \<lparr>this = ''cone'', quoted = True\<rparr> [int_lit ''1'', int_lit ''2'', int_lit ''3''])"
    by (simp add: untyped_fault_def)
  show ?thesis
    by (simp only: untyped_fault_exactly u1 u2 u3 u4 u5 simp_thms)
qed

lemma minus_conjunction_type_error:
  "resolve demo_env (Neg (Paren (And (col ''name'') (col ''age'')))) init_extra_params
     = (Inl TypeError, init_extra_params)"
  by (simp add: resolve_col_name resolve_col_age and_then_Inr returns_def lift_def dj_neg_def)

text \<open>
  As claim C2 is worded it fails on \<^verbatim>\<open>cone(ra, 1, 2)\<close> with \<^verbatim>\<open>ra\<close> a field of the
  model: the argument resolves to an \<^verbatim>\<open>F\<close>, which has no \<^verbatim>\<open>value\<close>, and the
  exception is an \<^verbatim>\<open>AttributeError\<close>. A string argument raises nothing: it is
  recorded as the right ascension.
\<close>

theorem cone_field_argument_counterexample:
  "resolve demo_env (Anonymous ''cone'' [col ''ra'', int_lit ''1'', int_lit ''2'']) init_extra_params
     = (Inl AttributeError, init_extra_params) \<and>
   \<not> typed_error AttributeError \<and>
   resolve demo_env (Anonymous ''cone'' [str_lit ''abc'', int_lit ''1'', int_lit ''2'']) init_extra_params
     = (Inr (Q_kwargs ''cone_query'' (PyBool True)),
        \<lparr>cones = [\<lparr>cone_ra = PyStr ''abc'', cone_dec = PyInt 1, cone_radius = PyInt 2\<rparr>],
         aliases = Map.empty\<rparr>)"
  by (simp add: lower_cone resolve_col_ra resolve_str_abc resolve_int_lit demo_int_digits and_then_Inr
      append_cone_def cone_index_str_def init_extra_params_def)

subsection \<open>A stray \<^verbatim>\<open>NULL\<close>\<close>

lemma fails_raises: "fails (raises e)"
  by (simp add: fails_def raises_def)

lemma fails_and_then_first: "fails m \<Longrightarrow> fails (and_then m k)"
  unfolding fails_def
proof
  fix s
  assume a: "\<forall>s. \<exists>e. fst (m s) = Inl e"
  then obtain e where "fst (m s) = Inl e" by blast
  then have "m s = (Inl e, snd (m s))" by (cases "m s") simp
  then have "and_then m k s = (Inl e, snd (m s))" by (rule and_then_Inl)
  then show "\<exists>e. fst (and_then m k s) = Inl e" by simp
qed

lemma fails_and_then_second: "(\<And>x. fails (k x)) \<Longrightarrow> fails (and_then m k)"
  unfolding fails_def
proof
  fix s
  assume a: "\<And>x. \<forall>s. \<exists>e. fst (k x s) = Inl e"
  obtain r s' where ms: "m s = (r, s')" by (cases "m s")
  show "\<exists>e. fst (and_then m k s) = Inl e"
  proof (cases r)
    case (Inl e)
    with ms show ?thesis by (simp add: and_then_Inl)
  next
    case (Inr x)
    with ms a [of x] show ?thesis by (simp add: and_then_Inr)
  qed
qed

lemma stray_null_not_literal: "nonstring_literal e \<Longrightarrow> \<not> stray_null e"
  by (cases e) simp_all

lemma stray_null_fails:
  "stray_null t \<Longrightarrow> fails (resolve env t)"
  "stray_null_any ts \<Longrightarrow> fails (resolve_all env ts)"
  "stray_null_any ts \<Longrightarrow> fails (resolve_cone env ts)"
proof (induction env t and env ts and env ts rule: resolve_resolve_all_resolve_cone.induct)
  case (4 env e)
  then show ?case
    by (cases "nonstring_literal e") (auto simp: stray_null_not_literal intro: fails_and_then_first)
next
  case (29 env e0 e1 e2)
  from "29.prems" consider "stray_null e0" | "stray_null e1" | "stray_null e2" by auto
  then show ?case
  proof cases
    case 1
    with "29.IH"(1) have "fails (resolve env e0)" by simp
    then show ?thesis by (simp add: fails_and_then_first)
  next
    case 2
    with "29.IH"(2) have f: "fails (resolve env e1)" by simp
    show ?thesis unfolding resolve_cone.simps
      by (rule fails_and_then_first [OF f] | rule fails_and_then_second)+
  next
    case 3
    with "29.IH"(3) have f: "fails (resolve env e2)" by simp
    show ?thesis unfolding resolve_cone.simps
      by (rule fails_and_then_first [OF f] | rule fails_and_then_second)+
  qed
qed (auto intro: fails_and_then_first fails_and_then_second fails_raises)

lemma reaches_null_first_exception:
  "reaches_null env t \<Longrightarrow> first_exception env t = Some InvalidQuery"
  "reaches_null_any env ts \<Longrightarrow> first_exception_all env ts = Some InvalidQuery"
  "reaches_null_args env ts \<Longrightarrow> first_exception_args env ts = Some InvalidQuery"
  by (induction env t and env ts and env ts
      rule: reaches_null_reaches_null_any_reaches_null_args.induct) auto

lemma reaches_null_stray:
  "reaches_null env t \<Longrightarrow> stray_null t"
  "reaches_null_any env ts \<Longrightarrow> stray_null_any ts"
  "reaches_null_args env ts \<Longrightarrow> stray_null_any ts"
  by (induction env t and env ts and env ts
      rule: reaches_null_reaches_null_any_reaches_null_args.induct) auto

text \<open>
  Claim C9, amended. A tree with a \<^verbatim>\<open>Null\<close> node anywhere but directly on the right
  of \<^verbatim>\<open>EQ\<close>, \<^verbatim>\<open>Is\<close> or \<^verbatim>\<open>NEQ\<close> never resolves to a value: an exception is raised.
  The exception is \<^verbatim>\<open>InvalidQuery\<close> whenever resolution comes to such a \<^verbatim>\<open>Null\<close>, that
  is whenever nothing resolved before it raises: every operand resolved earlier
  resolves, and every earlier argument of the same \<^verbatim>\<open>cone\<close> call resolves to a
  \<^verbatim>\<open>Value\<close>.
\<close>

theorem stray_null_never_resolves:
  "(stray_null t \<longrightarrow> (\<exists>e. fst (resolve env t s) = Inl e)) \<and>
   (reaches_null env t \<longrightarrow> fst (resolve env t s) = Inl InvalidQuery)"
  using stray_null_fails(1) [of t env] reaches_null_first_exception(1) [of env t]
    resolve_first_exception [of env t s InvalidQuery]
  unfolding fails_def by blast

theorem stray_null_never_resolves_witness:
  "stray_null (GT (col ''age'') Null) \<and> reaches_null demo_env (GT (col ''age'') Null) \<and>
   fst (resolve demo_env (GT (col ''age'') Null) init_extra_params) = Inl InvalidQuery \<and>
   stray_null (Add (int_lit ''1'') Null) \<and> reaches_null demo_env (Add (int_lit ''1'') Null) \<and>
   fst (resolve demo_env (Add (int_lit ''1'') Null) init_extra_params) = Inl InvalidQuery \<and>
   stray_null (In (col ''age'') [int_lit ''1'', Null]) \<and>
   reaches_null demo_env (In (col ''age'') [int_lit ''1'', Null]) \<and>
   fst (resolve demo_env (In (col ''age'') [int_lit ''1'', Null]) init_extra_params) = Inl InvalidQuery \<and>
   stray_null (GT (col ''missing'') Null) \<and> \<not> reaches_null demo_env (GT (col ''missing'') Null) \<and>
   (\<exists>e. fst (resolve demo_env (GT (col ''missing'') Null) init_extra_params) = Inl e)"
proof -
  have r1: "reaches_null demo_env (GT (col ''age'') Null)"
    by (simp add: first_exception_cols)
  have r2: "reaches_null demo_env (Add (int_lit ''1'') Null)"
    by (simp add: first_exception_int_lit demo_int_digits)
  have r3: "reaches_null demo_env (In (col ''age'') [int_lit ''1'', Null])"
    by (simp add: first_exception_cols first_exception_int_lit demo_int_digits)
  have r4: "\<not> reaches_null demo_env (GT (col ''missing'') Null)"
    by (simp add: col_def name_ident_def parts_def resolve_column_def demo_env_def)
  have s: "stray_null (GT (col ''age'') Null)" "stray_null (Add (int_lit ''1'') Null)"
    "stray_null (In (col ''age'') [int_lit ''1'', Null])" "stray_null (GT (col ''missing'') Null)"
    by simp_all
  note th = stray_null_never_resolves [where env = demo_env and s = init_extra_params]
  from th [of "GT (col ''age'') Null"] r1
  have e1: "fst (resolve demo_env (GT (col ''age'') Null) init_extra_params) = Inl InvalidQuery"
    by blast
  from th [of "Add (int_lit ''1'') Null"] r2
  have e2: "fst (resolve demo_env (Add (int_lit ''1'') Null) init_extra_params) = Inl InvalidQuery"
    by blast
  from th [of "In (col ''age'') [int_lit ''1'', Null]"] r3
  have e3: "fst (resolve demo_env (In (col ''age'') [int_lit ''1'', Null]) init_extra_params)
      = Inl InvalidQuery"
    by blast
  from th [of "GT (col ''missing'') Null"] s(4)
  have e4: "\<exists>e. fst (resolve demo_env (GT (col ''missing'') Null) init_extra_params) = Inl e"
    by blast
  from s r1 r2 r3 r4 e1 e2 e3 e4 show ?thesis by blast
qed

text \<open>
  As claim C9 is worded it fails on \<^verbatim>\<open>missing > NULL\<close>: the left operand is resolved
  first and raises \<^verbatim>\<open>FieldDoesNotExist\<close>.
\<close>

theorem null_after_missing_field_counterexample:
  "stray_null (GT (col ''missing'') Null) \<and>
   resolve demo_env (GT (col ''missing'') Null) init_extra_params
     = (Inl (FieldDoesNotExist ''missing''), init_extra_params) \<and>
   FieldDoesNotExist ''missing'' \<noteq> InvalidQuery"
  by (simp add: resolve_col_missing and_then_Inl)

subsection \<open>The order of the cone records\<close>

lemma cone_free_between_subjects:
  "cone_calls t = [] \<Longrightarrow> between_subjects_cone_free t"
  "cone_calls_all ts = [] \<Longrightarrow> between_subjects_cone_free_all ts"
  by (induction t and ts rule: cone_calls_cone_calls_all.induct) (auto split: if_splits)

lemma appends_returns: "appends (returns x) []"
  by (simp add: appends_def returns_def)

lemma appends_raises: "appends (raises e) xs"
  by (simp add: appends_def raises_def)

lemma appends_lift: "appends (lift r) []"
  by (simp add: appends_def lift_def)

lemma appends_and_then:
  assumes "appends m xs" and "\<And>x. appends (k x) ys"
  shows "appends (and_then m k) (xs @ ys)"
  unfolding appends_def
proof (intro allI impI)
  fix s r s'
  assume "and_then m k s = (Inr r, s')"
  then obtain x s1 where m: "m s = (Inr x, s1)" and k: "k x s1 = (Inr r, s')"
    by (rule and_then_Inr_cases)
  from assms(1) m have "map Some (cones s1) = map Some (cones s) @ xs"
    unfolding appends_def by blast
  moreover from assms(2) [of x] k have "map Some (cones s') = map Some (cones s1) @ ys"
    unfolding appends_def by blast
  ultimately show "map Some (cones s') = map Some (cones s) @ xs @ ys" by simp
qed

lemma appends_and_then_Nil:
  assumes "appends m xs" and "\<And>x. appends (k x) []"
  shows "appends (and_then m k) xs"
  using appends_and_then [OF assms] by simp

lemma appends_binary:
  assumes "appends m1 xs" and "appends m2 ys" and "\<And>a b. appends (k a b) []"
  shows "appends (and_then m1 (\<lambda>a. and_then m2 (\<lambda>b. k a b))) (xs @ ys)"
  by (rule appends_and_then [OF assms(1)]) (rule appends_and_then_Nil [OF assms(2)], rule assms(3))

lemma appends_resolve_cone3:
  "appends (resolve_cone env [e0, e1, e2]) [cone_record env [e0, e1, e2]] \<and>
   (\<forall>s r s'. resolve_cone env [e0, e1, e2] s = (Inr r, s') \<longrightarrow> cone_calls_all [e0, e1, e2] = [])"
proof -
  have "map Some (cones s') = map Some (cones s) @ [cone_record env [e0, e1, e2]] \<and>
        cone_calls_all [e0, e1, e2] = []"
    if "resolve_cone env [e0, e1, e2] s = (Inr r, s')" for s r s'
  proof -
    from that obtain r0 s0 ra r1 s1 dec r2 s2 radius
      where a0: "resolve env e0 s = (Inr r0, s0)" and v0: "py_value r0 = Inr ra"
        and a1: "resolve env e1 s0 = (Inr r1, s1)" and v1: "py_value r1 = Inr dec"
        and a2: "resolve env e2 s1 = (Inr r2, s2)" and v2: "py_value r2 = Inr radius"
        and fin: "append_cone \<lparr>cone_ra = ra, cone_dec = dec, cone_radius = radius\<rparr> s2 = (Inr r, s')"
      by (auto elim!: and_then_Inr_cases simp: lift_def)
    from v0 v1 v2 have "r0 = Value ra" "r1 = Value dec" "r2 = Value radius"
      by (simp_all add: py_value_Inr)
    with a0 a1 a2 Value_only_from_argument [of env e0 s ra s0]
      Value_only_from_argument [of env e1 s0 dec s1] Value_only_from_argument [of env e2 s1 radius s2]
    have "arg_value env e0 = Some ra" "arg_value env e1 = Some dec" "arg_value env e2 = Some radius"
      "s2 = s" "cone_calls e0 = []" "cone_calls e1 = []" "cone_calls e2 = []"
      by simp_all
    with fin show ?thesis by (auto simp: append_cone_def)
  qed
  then show ?thesis unfolding appends_def by blast
qed

lemma appends_Nil_left:
  assumes "appends m []" and "\<And>x. appends (k x) ys"
  shows "appends (and_then m k) ys"
  using appends_and_then [OF assms] by simp

lemma cone_records_appended:
  "between_subjects_cone_free t \<Longrightarrow> appends (resolve env t) (map (cone_record env) (cone_calls t))"
  "between_subjects_cone_free_all ts \<Longrightarrow>
     appends (resolve_all env ts) (map (cone_record env) (cone_calls_all ts))"
  "appends (resolve_cone env ts) [cone_record env ts] \<and>
   (\<forall>s r s'. resolve_cone env ts s = (Inr r, s') \<longrightarrow> cone_calls_all ts = [])"
proof (induction env t and env ts and env ts rule: resolve_resolve_all_resolve_cone.induct)
  case (1 env p)
  then show ?case by (auto simp: appends_def returns_def raises_def split: option.splits)
next
  case (2 env qualifiers ident)
  then show ?case by (auto simp: appends_def returns_def lift_def)
next
  case (4 env e)
  then show ?case
    by (cases "nonstring_literal e")
       (auto intro!: appends_and_then_Nil appends_returns appends_lift)
next
  case (5 env e)
  then show ?case by (auto intro!: appends_and_then_Nil appends_returns)
next
  case (9 env l r)
  show ?case
  proof (cases "is_Null r")
    case True
    with 9 show ?thesis
      by (auto intro!: appends_and_then_Nil appends_returns simp: is_Null_eq)
  next
    case False
    with 9 show ?thesis
      by (auto intro!: appends_binary appends_returns)
  qed
next
  case (10 env l r)
  show ?case
  proof (cases "is_Null r")
    case True
    with 10 show ?thesis
      by (auto intro!: appends_and_then_Nil appends_returns simp: is_Null_eq)
  next
    case False
    with 10 show ?thesis
      by (auto intro!: appends_binary appends_returns)
  qed
next
  case (11 env l r)
  show ?case
  proof (cases "is_Null r")
    case True
    with 11 show ?thesis
      by (auto intro!: appends_and_then_Nil appends_returns simp: is_Null_eq)
  next
    case False
    with 11 show ?thesis
      by (auto intro!: appends_binary appends_returns)
  qed
next
  case (21 env e low high)
  from "21.prems" have free: "cone_calls e = []"
    and g: "between_subjects_cone_free low" "between_subjects_cone_free high" by simp_all
  from free have "between_subjects_cone_free e" by (rule cone_free_between_subjects)
  with "21.IH"(1) free have e: "appends (resolve env e) []" by simp
  from "21.IH"(2) g have lo: "appends (resolve env low) (map (cone_record env) (cone_calls low))"
    by simp
  from "21.IH"(4) g have hi: "appends (resolve env high) (map (cone_record env) (cone_calls high))"
    by simp
  show ?case unfolding resolve.simps cone_calls.simps free append_Nil map_append
    by (intro appends_Nil_left [OF e] appends_and_then [OF lo] appends_and_then_Nil [OF hi]
        appends_returns)
next
  case (23 env name expressions)
  show ?case
  proof (cases "lower name = ''cone''")
    case False
    then show ?thesis by (simp add: appends_raises)
  next
    case True
    from "23.IH" [OF True]
    have a: "appends (resolve_cone env expressions) [cone_record env expressions]"
      and n: "\<And>s r s'. resolve_cone env expressions s = (Inr r, s') \<Longrightarrow> cone_calls_all expressions = []"
      by blast+
    show ?thesis using True a n unfolding appends_def by (auto simp del: resolve_cone.simps)
  qed
next
  case (29 env e0 e1 e2)
  show ?case by (rule appends_resolve_cone3)
qed (auto intro!: appends_binary appends_returns appends_lift appends_raises
      simp: raises_never)

text \<open>
  When a tree with no cone call inside the subject of a \<^verbatim>\<open>Between\<close> resolves to a
  value, the records added to \<^verbatim>\<open>cones\<close> are those of its cone calls, one for each, in
  the order of the source text.
\<close>

lemma cone_records_in_call_order:
  assumes "resolve env t s = (Inr r, s')" and "between_subjects_cone_free t"
  shows "map Some (cones s') = map Some (cones s) @ map (cone_record env) (cone_calls t)"
  using cone_records_appended(1) [OF assms(2), of env] assms(1) unfolding appends_def by blast

text \<open>
  Claim C4 asks for one record per cone call of the tree, whatever the tree. The
  \<^verbatim>\<open>Between\<close> branch resolves its subject once for each bound, so for
  \<^verbatim>\<open>cone(1,2,3) BETWEEN 0 AND 1\<close> the single call is recorded twice and named both
  \<^verbatim>\<open>cone_query\<close> and \<^verbatim>\<open>cone_query1\<close>.
\<close>

theorem between_subject_resolved_twice:
  "resolve demo_env
     (Between (Anonymous ''cone'' [int_lit ''1'', int_lit ''2'', int_lit ''3'']) (int_lit ''0'') (int_lit ''1''))
     init_extra_params =
   (Inr (Q_and (Q (GreaterThanOrEqual (Q_kwargs ''cone_query'' (PyBool True)) (Value (PyInt 0))))
               (Q (LessThanOrEqual (Q_kwargs ''cone_query1'' (PyBool True)) (Value (PyInt 1))))),
    \<lparr>cones = [\<lparr>cone_ra = PyInt 1, cone_dec = PyInt 2, cone_radius = PyInt 3\<rparr>,
              \<lparr>cone_ra = PyInt 1, cone_dec = PyInt 2, cone_radius = PyInt 3\<rparr>],
     aliases = Map.empty\<rparr>)"
  by (simp add: lower_cone resolve_int_lit demo_int_digits and_then_Inr append_cone_def
      cone_index_str_def init_extra_params_def str_1 returns_def)

subsection \<open>The names given to cone clauses\<close>

text \<open>
  \<open>str\<close> writes a number in decimal: the digits read back as the number, and there is
  no leading zero.
\<close>

lemma str_digits: "demo_int (str n) = Some (int n)"
proof (induction n rule: str.induct)
  case (1 n)
  have d: "demo_digit (digit_char k)" "of_char (digit_char k) - 48 = int k" if "k < 10" for k
  proof -
    have "(of_char (digit_char k) :: int) = int (of_char (digit_char k))"
      by (simp add: of_nat_of_char)
    with that show "of_char (digit_char k) - 48 = int k" by (simp add: digit_char_def)
    from that show "demo_digit (digit_char k)" by (simp add: demo_digit_def digit_char_def)
  qed
  show ?case
  proof (cases "n < 10")
    case True
    then show ?thesis by (subst str.simps) (simp add: demo_int_def d)
  next
    case False
    with 1 have ih: "demo_int (str (n div 10)) = Some (int (n div 10))" by simp
    then have ne: "str (n div 10) \<noteq> []" and all: "list_all demo_digit (str (n div 10))"
      and v: "foldl (\<lambda>n c. 10 * n + (of_char c - 48)) 0 (str (n div 10)) = int (n div 10)"
      by (auto simp: demo_int_def split: if_splits)
    have "n mod 10 < 10" by simp
    note dm = d [OF this]
    from False have "str n = str (n div 10) @ [digit_char (n mod 10)]" by (subst str.simps) simp
    with ne all v dm show ?thesis by (simp add: demo_int_def zdiv_int zmod_int)
  qed
qed

lemma str_no_leading_zero: "n \<noteq> 0 \<Longrightarrow> hd (str n) \<noteq> CHR ''0''"
proof (induction n rule: str.induct)
  case (1 n)
  show ?case
  proof (cases "n < 10")
    case True
    have "digit_char n \<noteq> CHR ''0''"
    proof
      assume "digit_char n = CHR ''0''"
      then have "(of_char (digit_char n) :: nat) = of_char (CHR ''0'')" by simp
      with True "1.prems" show False by (simp add: digit_char_def)
    qed
    with True show ?thesis by (subst str.simps) simp
  next
    case False
    then have nz: "n div 10 \<noteq> 0" by simp
    from str_digits [of "n div 10"] have "str (n div 10) \<noteq> []"
      by (auto simp: demo_int_def split: if_splits)
    with False 1 nz show ?thesis by (subst str.simps) simp
  qed
qed

lemma str_2: "str (Suc (Suc 0)) = ''2''"
  by code_simp

text \<open>
  A call of \<^verbatim>\<open>cone\<close> (in any letter case) with three arguments that resolve, in order,
  to \<^verbatim>\<open>Value\<close> objects appends the record of the three values and returns
  \<^verbatim>\<open>Q(name=True)\<close>, the filter "field \<open>name\<close> equals true", where \<open>name\<close> is
  \<^verbatim>\<open>cone_query\<close> when the list of records was empty before the append, and
  \<^verbatim>\<open>cone_query\<close> followed by the length of that list otherwise.
\<close>

lemma cone_synthetic_name:
  assumes "lower name = ''cone''"
    and "resolve env e0 s = (Inr (Value ra), s0)"
    and "resolve env e1 s0 = (Inr (Value dec), s1)"
    and "resolve env e2 s1 = (Inr (Value radius), s2)"
  shows "resolve env (Anonymous name [e0, e1, e2]) s =
           (Inr (Q_kwargs (''cone_query'' @ (if length (cones s2) = 0 then [] else str (length (cones s2))))
                   (PyBool True)),
            s2\<lparr>cones := cones s2 @ [\<lparr>cone_ra = ra, cone_dec = dec, cone_radius = radius\<rparr>]\<rparr>)"
  using assms by (simp add: and_then_Inr append_cone_def cone_index_str_def)

lemma cone_synthetic_name_two_calls:
  "resolve demo_env
     (And (Anonymous ''cone'' [int_lit ''1'', int_lit ''2'', int_lit ''3''])
          (Anonymous ''CoNe'' [int_lit ''4'', int_lit ''5'', int_lit ''6'']))
     init_extra_params =
   (Inr (Q_and (Q (Q_kwargs ''cone_query'' (PyBool True))) (Q (Q_kwargs ''cone_query1'' (PyBool True)))),
    \<lparr>cones = [\<lparr>cone_ra = PyInt 1, cone_dec = PyInt 2, cone_radius = PyInt 3\<rparr>,
              \<lparr>cone_ra = PyInt 4, cone_dec = PyInt 5, cone_radius = PyInt 6\<rparr>],
     aliases = Map.empty\<rparr>)"
proof -
  let ?s1 = "\<lparr>cones = [\<lparr>cone_ra = PyInt 1, cone_dec = PyInt 2, cone_radius = PyInt 3\<rparr>],
               aliases = Map.empty\<rparr> :: demo_float extra_params"
  have first: "resolve demo_env (Anonymous ''cone'' [int_lit ''1'', int_lit ''2'', int_lit ''3'']) init_extra_params
      = (Inr (Q_kwargs ''cone_query'' (PyBool True)), ?s1)"
    using cone_synthetic_name [OF lower_cone resolve_int_lit resolve_int_lit resolve_int_lit,
        OF demo_int_digits(2) demo_int_digits(3) demo_int_digits(4), of init_extra_params]
    by (simp add: init_extra_params_def)
  have second: "resolve demo_env (Anonymous ''CoNe'' [int_lit ''4'', int_lit ''5'', int_lit ''6'']) ?s1
      = (Inr (Q_kwargs ''cone_query1'' (PyBool True)),
         ?s1\<lparr>cones := cones ?s1 @ [\<lparr>cone_ra = PyInt 4, cone_dec = PyInt 5, cone_radius = PyInt 6\<rparr>]\<rparr>)"
    using cone_synthetic_name [OF lower_CONE resolve_int_lit resolve_int_lit resolve_int_lit,
        OF demo_int_digits(5) demo_int_digits(6) demo_int_digits(7), of ?s1]
    by (simp add: str_1)
  show ?thesis
    by (simp add: first second and_then_Inr returns_def del: resolve.simps(23))
qed

lemma cone_query_name_decimal:
  "cone_query_name 0 = ''cone_query''"
  "0 < k \<Longrightarrow> cone_query_name k = ''cone_query'' @ str k"
  "demo_int (str k) = Some (int k)"
  "0 < k \<Longrightarrow> hd (str k) \<noteq> CHR ''0''"
  by (simp_all add: cone_query_name_def cone_index_str_def str_digits str_no_leading_zero)

lemma numbered_returns: "names x = before \<Longrightarrow> numbered names before (returns x)"
  by (simp add: numbered_def returns_def)

lemma numbered_raises: "numbered names before (raises e)"
  by (simp add: numbered_def raises_def)

lemma numbered_lift:
  "(\<And>x. r = Inr x \<Longrightarrow> names x = before) \<Longrightarrow> numbered names before (lift r)"
  by (simp add: numbered_def lift_def)

lemma numbered_and_then:
  assumes m: "numbered names1 [] m"
    and k: "\<And>x. numbered names2 (before @ names1 x) (k x)"
  shows "numbered names2 before (and_then m k)"
  unfolding numbered_def
proof (intro allI impI)
  fix s r s'
  assume "and_then m k s = (Inr r, s')"
  then obtain x s1 where ms: "m s = (Inr x, s1)" and ks: "k x s1 = (Inr r, s')"
    by (rule and_then_Inr_cases)
  from m ms have le1: "length (cones s) \<le> length (cones s1)"
    and n1: "names1 x = map cone_query_name [length (cones s)..<length (cones s1)]"
    unfolding numbered_def by auto
  from k [of x] ks have le2: "length (cones s1) \<le> length (cones s')"
    and n2: "names2 r = (before @ names1 x) @ map cone_query_name [length (cones s1)..<length (cones s')]"
    unfolding numbered_def by auto
  from le1 le2 have "[length (cones s)..<length (cones s')] =
      [length (cones s)..<length (cones s1)] @ [length (cones s1)..<length (cones s')]"
    by (metis le_Suc_ex upt_add_eq_append)
  with n1 n2 le1 le2
  show "length (cones s) \<le> length (cones s') \<and>
        names2 r = before @ map cone_query_name [length (cones s)..<length (cones s')]"
    by simp
qed

lemma numbered_unary:
  assumes "numbered cone_names [] m" and "\<And>x. cone_names (f x) = cone_names x"
  shows "numbered cone_names [] (and_then m (\<lambda>x. returns (f x)))"
  by (rule numbered_and_then [OF assms(1)]) (simp add: numbered_returns assms(2))

lemma numbered_binary:
  assumes "numbered cone_names [] m1" and "numbered cone_names [] m2"
    and "\<And>x y. cone_names (f x y) = cone_names x @ cone_names y"
  shows "numbered cone_names [] (and_then m1 (\<lambda>x. and_then m2 (\<lambda>y. returns (f x y))))"
  by (rule numbered_and_then [OF assms(1)], rule numbered_and_then [OF assms(2)])
     (simp add: numbered_returns assms(3))

lemma numbered_arith:
  assumes "numbered cone_names [] m1" and "numbered cone_names [] m2"
  shows "numbered cone_names [] (and_then m1 (\<lambda>x. and_then m2 (\<lambda>y. lift (dj_arith c x y))))"
  by (rule numbered_and_then [OF assms(1)], rule numbered_and_then [OF assms(2)])
     (auto intro!: numbered_lift simp: dj_arith_def split: if_splits)

lemma numbered_Value:
  assumes "\<And>s r s'. m s = (Inr r, s') \<Longrightarrow> s' = s \<and> (\<exists>v. r = Value v)"
  shows "numbered cone_names [] m"
  unfolding numbered_def using assms by fastforce

lemma numbered_resolve_cone3:
  "numbered cone_names [] (resolve_cone env [e0, e1, e2])"
  unfolding numbered_def
proof (intro allI impI)
  fix s r s'
  assume "resolve_cone env [e0, e1, e2] s = (Inr r, s')"
  then obtain r0 s0 ra r1 s1 dec r2 s2 radius
    where a0: "resolve env e0 s = (Inr r0, s0)" and v0: "py_value r0 = Inr ra"
      and a1: "resolve env e1 s0 = (Inr r1, s1)" and v1: "py_value r1 = Inr dec"
      and a2: "resolve env e2 s1 = (Inr r2, s2)" and v2: "py_value r2 = Inr radius"
      and fin: "append_cone \<lparr>cone_ra = ra, cone_dec = dec, cone_radius = radius\<rparr> s2 = (Inr r, s')"
    by (auto elim!: and_then_Inr_cases simp: lift_def)
  from v0 v1 v2 have "r0 = Value ra" "r1 = Value dec" "r2 = Value radius"
    by (simp_all add: py_value_Inr)
  with a0 a1 a2 Value_only_from_argument [of env e0 s ra s0]
    Value_only_from_argument [of env e1 s0 dec s1] Value_only_from_argument [of env e2 s1 radius s2]
  have "s2 = s" by simp
  with fin show "length (cones s) \<le> length (cones s') \<and>
      cone_names r = [] @ map cone_query_name [length (cones s)..<length (cones s')]"
    by (auto simp: append_cone_def cone_query_name_def)
qed

lemma cone_names_numbered:
  "numbered cone_names [] (resolve env t)"
  "numbered (\<lambda>rs. concat (map cone_names rs)) [] (resolve_all env ts)"
  "numbered cone_names [] (resolve_cone env ts)"
proof (induction env t and env ts and env ts rule: resolve_resolve_all_resolve_cone.induct)
  case (1 env p)
  then show ?case
    by (auto simp: numbered_returns numbered_raises split: option.splits)
next
  case (2 env qualifiers ident)
  then show ?case
    by (auto intro!: numbered_returns numbered_lift dest: resolve_column_value)
next
  case (4 env e)
  show ?case
  proof (cases "nonstring_literal e")
    case True
    have "s' = s \<and> (\<exists>v. r = Value v)" if "resolve env (Neg e) s = (Inr r, s')" for s r s'
    proof -
      from that True obtain w where "r = Value w"
        by (auto elim!: and_then_Inr_cases simp: returns_def)
      with that Value_only_from_argument [of env "Neg e" s w s'] show ?thesis by simp
    qed
    then show ?thesis by (rule numbered_Value)
  next
    case False
    with 4 show ?thesis
      by (auto intro!: numbered_and_then [where before = "[]" and ?names1.0 = cone_names, simplified]
          numbered_lift simp: dj_neg_def split: if_splits)
  qed
next
  case (9 env l r)
  then show ?case
    by (cases "is_Null r") (simp_all add: numbered_unary numbered_binary)
next
  case (10 env l r)
  then show ?case
    by (cases "is_Null r") (simp_all add: numbered_unary numbered_binary)
next
  case (11 env l r)
  then show ?case
    by (cases "is_Null r") (simp_all add: numbered_unary numbered_binary)
next
  case (21 env e low high)
  show ?case unfolding resolve.simps
    by (rule numbered_and_then [OF "21.IH"(1)], rule numbered_and_then [OF "21.IH"(2)],
        rule numbered_and_then [OF "21.IH"(3)], rule numbered_and_then [OF "21.IH"(4)])
       (simp add: numbered_returns)
next
  case (22 env e expressions)
  show ?case unfolding resolve.simps
    by (rule numbered_and_then [OF "22.IH"(1)], rule numbered_and_then [OF "22.IH"(2)])
       (simp add: numbered_returns)
next
  case (28 env e es)
  show ?case unfolding resolve_all.simps
    by (rule numbered_and_then [OF "28.IH"(1)], rule numbered_and_then [OF "28.IH"(2)])
       (simp add: numbered_returns)
next
  case (29 env e0 e1 e2)
  show ?case by (rule numbered_resolve_cone3)
qed (simp_all add: numbered_unary numbered_binary numbered_arith numbered_returns numbered_raises)

text \<open>
  The cone names in a result are numbered consecutively, from the length of \<^verbatim>\<open>cones\<close>
  before to its length after. From the accumulator set by \<^verbatim>\<open>__init__\<close>, and with no
  cone call inside the subject of a \<^verbatim>\<open>Between\<close>, they are the names of the cone calls
  of the tree: \<^verbatim>\<open>cone_query\<close> for the first and \<^verbatim>\<open>cone_query\<close> followed by N - 1 for
  the N-th.
\<close>

lemma cone_names_in_order:
  assumes "resolve env t s = (Inr r, s')"
  shows "cone_names r = map cone_query_name [length (cones s)..<length (cones s')]"
  using cone_names_numbered(1) [of env t] assms unfolding numbered_def by auto

lemma cone_names_of_calls:
  assumes "resolve env t init_extra_params = (Inr r, s')" and "between_subjects_cone_free t"
  shows "cone_names r = map cone_query_name [0..<length (cone_calls t)]"
proof -
  from cone_records_in_call_order [OF assms]
  have "length (map Some (cones s')) = length (map (cone_record env) (cone_calls t))"
    by (simp add: init_extra_params_def)
  then have "length (cones s') = length (cone_calls t)" by simp
  with cone_names_in_order [OF assms(1)] show ?thesis by (simp add: init_extra_params_def)
qed

text \<open>
  Claim C3 asks that the first cone call of a resolution be named \<^verbatim>\<open>cone_query\<close> and
  the N-th \<^verbatim>\<open>cone_query\<close> followed by N - 1. The \<^verbatim>\<open>Between\<close> branch resolves its
  subject twice, so in \<^verbatim>\<open>(cone(1,2,3) BETWEEN 0 AND 1) AND cone(4,5,6)\<close> the first call
  takes the names \<^verbatim>\<open>cone_query\<close> and \<^verbatim>\<open>cone_query1\<close>, and the second call of the
  query is named \<^verbatim>\<open>cone_query2\<close>, not \<^verbatim>\<open>cone_query1\<close>.
\<close>

theorem between_subject_shifts_cone_names:
  "resolve demo_env
     (And (Between (Anonymous ''cone'' [int_lit ''1'', int_lit ''2'', int_lit ''3''])
             (int_lit ''0'') (int_lit ''1''))
          (Anonymous ''cone'' [int_lit ''4'', int_lit ''5'', int_lit ''6'']))
     init_extra_params =
   (Inr (Q_and
          (Q (Q_and (Q (GreaterThanOrEqual (Q_kwargs ''cone_query'' (PyBool True)) (Value (PyInt 0))))
                    (Q (LessThanOrEqual (Q_kwargs ''cone_query1'' (PyBool True)) (Value (PyInt 1))))))
          (Q (Q_kwargs ''cone_query2'' (PyBool True)))),
    \<lparr>cones = [\<lparr>cone_ra = PyInt 1, cone_dec = PyInt 2, cone_radius = PyInt 3\<rparr>,
              \<lparr>cone_ra = PyInt 1, cone_dec = PyInt 2, cone_radius = PyInt 3\<rparr>,
              \<lparr>cone_ra = PyInt 4, cone_dec = PyInt 5, cone_radius = PyInt 6\<rparr>],
     aliases = Map.empty\<rparr>)"
  by (simp add: lower_cone resolve_int_lit demo_int_digits and_then_Inr append_cone_def
      cone_index_str_def init_extra_params_def str_1 str_2 returns_def)

end
